theory Spec2Isabelle
  imports Main "HOL-Library.Word"
begin

section \<open>Wide characters, strings and bytes\<close>

text \<open>
  The program is a Windows console application: \<open>wchar_t\<close> is an unsigned 16-bit code
  unit, \<open>std::wstring\<close> and \<open>std::wstring_view\<close> are sequences of such units, and
  \<open>std::byte\<close> is an 8-bit value. \<open>unsigned int\<close>, \<open>long\<close> and \<open>unsigned long\<close> are
  32 bits wide on this platform. The \<open>assert\<close> macros of the source are taken as
  active: a function with assertions returns an \<open>option\<close>, and \<open>None\<close> is a failed
  assertion, which aborts the process.
\<close>

type_synonym wchar = "16 word"
type_synonym wstring = "wchar list"
type_synonym byte = "8 word"

text \<open>A wide string literal \<open>L"..."\<close> of ASCII characters.\<close>

definition L :: "string \<Rightarrow> wstring" where
  "L s = map of_char s"

text \<open>
  Reading a buffer as a NUL-terminated C string (\<open>c_str()\<close>, \<open>buffer.data()\<close> passed to a
  C function): the characters before the first NUL.
\<close>

definition c_str :: "wstring \<Rightarrow> wstring" where
  "c_str s = takeWhile (\<lambda>c. c \<noteq> 0) s"

section \<open>Error codes\<close>

text \<open>\<open>enum class WolErrorCode : std::uint8_t\<close>, enumerators in declaration order.\<close>

datatype WolErrorCode =
    Success
  | FailedToGetExecutionPath
  | InvalidExecutionPath
  | ConfigFileNotFound
  | CannotAccessConfigFile
  | FailedToReadMacAddress
  | InvalidMacAddress
  | FailedToReadBroadcastIp
  | InvalidBroadcastIp
  | FailedToReadPort
  | InvalidPort
  | WinsockInitializationFailed
  | SocketCreationFailed
  | BroadcastSetupFailed
  | PacketSendFailed
  | UnexpectedException

text \<open>
  The underlying \<open>std::uint8_t\<close> value of each enumerator: \<open>Success = 0U\<close>, every later
  enumerator one more than its predecessor.
\<close>

fun enum_value :: "WolErrorCode \<Rightarrow> 8 word" where
  "enum_value Success = 0"
| "enum_value FailedToGetExecutionPath = 1"
| "enum_value InvalidExecutionPath = 2"
| "enum_value ConfigFileNotFound = 3"
| "enum_value CannotAccessConfigFile = 4"
| "enum_value FailedToReadMacAddress = 5"
| "enum_value InvalidMacAddress = 6"
| "enum_value FailedToReadBroadcastIp = 7"
| "enum_value InvalidBroadcastIp = 8"
| "enum_value FailedToReadPort = 9"
| "enum_value InvalidPort = 10"
| "enum_value WinsockInitializationFailed = 11"
| "enum_value SocketCreationFailed = 12"
| "enum_value BroadcastSetupFailed = 13"
| "enum_value PacketSendFailed = 14"
| "enum_value UnexpectedException = 15"

text \<open>\<open>CONFIG_FILE_NAME\<close>, the literal \<open>L"config.ini"\<close>.\<close>

definition CONFIG_FILE_NAME :: wstring where
  "CONFIG_FILE_NAME = L ''config.ini''"

text \<open>
  \<open>WolErrorCodeToString\<close>, over the stored 8-bit value of the enumeration so that the
  code after the \<open>switch\<close> is a branch of the model. Each \<open>case\<close> label is the value of
  its enumerator; the returned literals are given as UTF-16 code units (the texts are
  Korean). \<open>None\<close> is the fall-through: \<open>assert(false)\<close>, then \<open>return {L""}\<close>.
\<close>

definition WolErrorCodeToString :: "8 word \<Rightarrow> wstring option" where
  "WolErrorCodeToString result =
    (if result = enum_value Success then
       Some [0xC131, 0xACF5, 0x000A]
     else if result = enum_value FailedToGetExecutionPath then
       Some [0xC2E4, 0xD589, 0x0020, 0xD30C, 0xC77C, 0x0020, 0xACBD, 0xB85C, 0xB97C, 0x0020,
             0xC5BB, 0xC744, 0x0020, 0xC218, 0x0020, 0xC5C6, 0xC74C, 0x000A]
     else if result = enum_value InvalidExecutionPath then
       Some [0xC720, 0xD6A8, 0xD558, 0xC9C0, 0x0020, 0xC54A, 0xC740, 0x0020, 0xC2E4, 0xD589,
             0x0020, 0xD30C, 0xC77C, 0x0020, 0xACBD, 0xB85C, 0x000A]
     else if result = enum_value ConfigFileNotFound then
       Some (CONFIG_FILE_NAME @
            [0xD30C, 0xC77C, 0xC744, 0x0020, 0xCC3E, 0xC744, 0x0020, 0xC218, 0x0020, 0xC5C6,
             0xC74C, 0x000A])
     else if result = enum_value CannotAccessConfigFile then
       Some (CONFIG_FILE_NAME @
            [0xD30C, 0xC77C, 0xC5D0, 0x0020, 0xC811, 0xADFC, 0x0020, 0xAD8C, 0xD55C, 0xC774,
             0x0020, 0xC5C6, 0xC74C, 0x000A])
     else if result = enum_value FailedToReadMacAddress then
       Some [0x0043, 0x006F, 0x006E, 0x0066, 0x0069, 0x0067, 0x0020, 0xD30C, 0xC77C, 0xC5D0,
             0xC11C, 0x0020, 0x004D, 0x0061, 0x0063, 0x0020, 0xC8FC, 0xC18C, 0xB97C, 0x0020,
             0xC77D, 0xC744, 0x0020, 0xC218, 0x0020, 0xC5C6, 0xC74C, 0x000A]
     else if result = enum_value InvalidMacAddress then
       Some [0xC798, 0xBABB, 0xB41C, 0x0020, 0x004D, 0x0041, 0x0043, 0x0020, 0xC8FC, 0xC18C,
             0x000A]
     else if result = enum_value FailedToReadBroadcastIp then
       Some [0x0043, 0x006F, 0x006E, 0x0066, 0x0069, 0x0067, 0x0020, 0xD30C, 0xC77C, 0xC5D0,
             0xC11C, 0x0020, 0xBE0C, 0xB85C, 0xB4DC, 0xCE90, 0xC2A4, 0xD2B8, 0x0020, 0xC8FC,
             0xC18C, 0xB97C, 0x0020, 0xC77D, 0xC744, 0x0020, 0xC218, 0x0020, 0xC5C6, 0xC74C,
             0x000A]
     else if result = enum_value InvalidBroadcastIp then
       Some [0xC798, 0xBABB, 0xB41C, 0x0020, 0xBE0C, 0xB85C, 0xB4DC, 0xCE90, 0xC2A4, 0xD2B8,
             0x0020, 0xC8FC, 0xC18C, 0x000A]
     else if result = enum_value FailedToReadPort then
       Some [0x0043, 0x006F, 0x006E, 0x0066, 0x0069, 0x0067, 0x0020, 0xD30C, 0xC77C, 0xC5D0,
             0xC11C, 0x0020, 0xD3EC, 0xD2B8, 0x0020, 0xC77D, 0xC744, 0x0020, 0xC218, 0x0020,
             0xC5C6, 0xC74C, 0x000A]
     else if result = enum_value InvalidPort then
       Some [0xC798, 0xBABB, 0xB41C, 0x0020, 0xD3EC, 0xD2B8, 0x0020, 0xBC88, 0xD638, 0x000A]
     else if result = enum_value WinsockInitializationFailed then
       Some [0x0057, 0x0069, 0x006E, 0x0053, 0x006F, 0x0063, 0x006B, 0x0020, 0xCD08, 0xAE30,
             0xD654, 0x0020, 0xC2E4, 0xD328, 0x000A]
     else if result = enum_value SocketCreationFailed then
       Some [0xC18C, 0xCF13, 0x0020, 0xC0DD, 0xC131, 0x0020, 0xC2E4, 0xD328, 0x000A]
     else if result = enum_value BroadcastSetupFailed then
       Some [0xBE0C, 0xB85C, 0xB4DC, 0xCE90, 0xC2A4, 0xD2B8, 0x0020, 0xC124, 0xC815, 0x0020,
             0xC2E4, 0xD328, 0x000A]
     else if result = enum_value PacketSendFailed then
       Some [0xD328, 0xD0B7, 0x0020, 0xC804, 0xC1A1, 0x0020, 0xC2E4, 0xD328, 0x000A]
     else if result = enum_value UnexpectedException then
       Some [0xC608, 0xAE30, 0xCE58, 0x0020, 0xC54A, 0xC740, 0x0020, 0xC624, 0xB958, 0x0020,
             0xBC1C, 0xC0DD, 0x000A]
     else None)"

section \<open>C library functions used by the program\<close>

text \<open>
  These are models of the C library functions the source calls, as the C standard
  describes them for the "C" locale; their code is not part of the repository.
\<close>

definition iswdigit :: "wchar \<Rightarrow> bool" where
  "iswdigit ch \<longleftrightarrow> 0x30 \<le> ch \<and> ch \<le> 0x39"

definition iswspace :: "wchar \<Rightarrow> bool" where
  "iswspace ch \<longleftrightarrow> ch = 0x20 \<or> (0x09 \<le> ch \<and> ch \<le> 0x0D)"

text \<open>The value of a hexadecimal digit, \<open>None\<close> for any other character.\<close>

definition hex_digit_value :: "wchar \<Rightarrow> nat option" where
  "hex_digit_value ch =
    (if 0x30 \<le> ch \<and> ch \<le> 0x39 then Some (unat ch - 0x30)
     else if 0x41 \<le> ch \<and> ch \<le> 0x46 then Some (unat ch - 0x41 + 10)
     else if 0x61 \<le> ch \<and> ch \<le> 0x66 then Some (unat ch - 0x61 + 10)
     else None)"

text \<open>
  The longest run of hexadecimal digits at the front of the input, accumulated in an
  \<open>unsigned int\<close>; returns the value and the unread rest.
\<close>

fun scan_hex_digits :: "32 word \<Rightarrow> wstring \<Rightarrow> 32 word \<times> wstring" where
  "scan_hex_digits acc [] = (acc, [])"
| "scan_hex_digits acc (ch # rest) =
    (case hex_digit_value ch of
       None \<Rightarrow> (acc, ch # rest)
     | Some d \<Rightarrow> scan_hex_digits (acc * 16 + of_nat d) rest)"

text \<open>The outcome of one conversion directive of \<open>swscanf\<close>.\<close>

datatype conversion = Converted "32 word" wstring | MatchingFailure | InputFailure

text \<open>
  The directive \<open>%x\<close>: skip white space; at the end of the input this is an input
  failure. Then an optional sign, an optional \<open>0x\<close> or \<open>0X\<close> prefix (taken only when a
  hexadecimal digit follows it), and at least one hexadecimal digit; a leading minus
  negates the value in \<open>unsigned int\<close>.
\<close>

definition scan_x_prefix :: "wstring \<Rightarrow> wstring" where
  "scan_x_prefix s =
    (case s of
       z # x # h # r \<Rightarrow>
         (if z = 0x30 \<and> (x = 0x78 \<or> x = 0x58) \<and> hex_digit_value h \<noteq> None then h # r else s)
     | _ \<Rightarrow> s)"

definition scan_x_digits :: "bool \<Rightarrow> wstring \<Rightarrow> conversion" where
  "scan_x_digits negative s =
    (case scan_x_prefix s of
       [] \<Rightarrow> MatchingFailure
     | d # r \<Rightarrow>
         (if hex_digit_value d = None then MatchingFailure
          else (case scan_hex_digits 0 (d # r) of
                  (v, rest) \<Rightarrow> Converted (if negative then - v else v) rest)))"

definition scan_x :: "wstring \<Rightarrow> conversion" where
  "scan_x input =
    (case dropWhile iswspace input of
       [] \<Rightarrow> InputFailure
     | ch # rest \<Rightarrow>
         (if ch = 0x2D then scan_x_digits True rest
          else if ch = 0x2B then scan_x_digits False rest
          else scan_x_digits False (ch # rest)))"

text \<open>
  The directives \<open>-%x\<close>, \<open>n\<close> times: the values converted before the first failure.
\<close>

fun swscanf_s_rest :: "nat \<Rightarrow> wstring \<Rightarrow> 32 word list" where
  "swscanf_s_rest 0 input = []"
| "swscanf_s_rest (Suc n) input =
    (case input of
       [] \<Rightarrow> []
     | ch # rest \<Rightarrow>
         (if ch \<noteq> 0x2D then []
          else (case scan_x rest of
                  Converted v rest' \<Rightarrow> v # swscanf_s_rest n rest'
                | MatchingFailure \<Rightarrow> []
                | InputFailure \<Rightarrow> [])))"

text \<open>
  \<open>swscanf_s(input, L"%x-%x-%x-%x-%x-%x", ...)\<close>: the return value (the number of
  values assigned, or \<open>EOF = -1\<close> on an input failure before the first conversion) and
  the assigned values in order.
\<close>

definition swscanf_s_mac :: "wstring \<Rightarrow> int \<times> 32 word list" where
  "swscanf_s_mac input =
    (case scan_x input of
       InputFailure \<Rightarrow> (- 1, [])
     | MatchingFailure \<Rightarrow> (0, [])
     | Converted v rest \<Rightarrow>
         (let vs = v # swscanf_s_rest 5 rest in (int (length vs), vs)))"

section \<open>Validation of the MAC address\<close>

definition MAC_ADDRESS_LENGTH :: nat where
  "MAC_ADDRESS_LENGTH = 18"

definition MAC_ADDRESS_SEPARATOR_INDICES :: "nat list" where
  "MAC_ADDRESS_SEPARATOR_INDICES = [2, 5, 8, 11, 14]"

definition separator :: wchar where
  "separator = 0x2D"

text \<open>
  The \<open>for\<close> loop of \<open>WolConfig::IsValidMacAddress\<close> from index \<open>i\<close> on: a separator
  position must hold \<open>-\<close>, every other position a hexadecimal digit.
\<close>

function IsValidMacAddress_loop :: "wstring \<Rightarrow> nat \<Rightarrow> WolErrorCode" where
  "IsValidMacAddress_loop macAddress i =
    (if i < length macAddress then
       (if i \<in> set MAC_ADDRESS_SEPARATOR_INDICES then
          (if macAddress ! i \<noteq> separator then InvalidMacAddress
           else IsValidMacAddress_loop macAddress (i + 1))
        else
          (if ((0x30 \<le> macAddress ! i \<and> macAddress ! i \<le> 0x39)
               \<or> (0x41 \<le> macAddress ! i \<and> macAddress ! i \<le> 0x46)
               \<or> (0x61 \<le> macAddress ! i \<and> macAddress ! i \<le> 0x66)) = False
           then InvalidMacAddress
           else IsValidMacAddress_loop macAddress (i + 1)))
     else Success)"
  by pat_completeness auto
termination
  by (relation "measure (\<lambda>(macAddress, i). length macAddress - i)") auto

definition IsValidMacAddress :: "wstring \<Rightarrow> WolErrorCode" where
  "IsValidMacAddress macAddress =
    (if macAddress = [] \<or> length macAddress > MAC_ADDRESS_LENGTH then InvalidMacAddress
     else IsValidMacAddress_loop macAddress 0)"

section \<open>Parsing the MAC address and building the magic packet\<close>

text \<open>
  \<open>WakeOnLanSender::ParseMacAddress\<close>. \<open>tempValues\<close> starts as six zeros and receives the
  values \<open>swscanf_s\<close> assigns; each is then narrowed to a byte. \<open>None\<close> is a failed
  \<open>assert\<close> (the input is empty, or fewer than six values were scanned).
\<close>

definition ParseMacAddress :: "wstring \<Rightarrow> byte list option" where
  "ParseMacAddress macAddressString =
    (if macAddressString = [] then None
     else (case swscanf_s_mac (c_str macAddressString) of
             (scanResult, assigned) \<Rightarrow>
               (let tempValues = assigned @ replicate (6 - length assigned) (0 :: 32 word)
                in if scanResult \<noteq> 6 then None
                   else Some (map (\<lambda>i. ucast (tempValues ! i)) [0..<6]))))"

definition magicHeader :: byte where
  "magicHeader = 0xFF"

definition headerSize :: nat where
  "headerSize = 6"

definition macRepeatCount :: nat where
  "macRepeatCount = 16"

text \<open>
  \<open>WakeOnLanSender::CreateMagicPacket\<close>: the two loops write into the output array
  \<open>packet\<close>, which is returned. \<open>macBytes.size()\<close> is the length of \<open>macBytes\<close>, 6 for a
  \<open>MacAddress\<close>.
\<close>

definition CreateMagicPacket :: "byte list \<Rightarrow> byte list \<Rightarrow> byte list" where
  "CreateMagicPacket macBytes packet =
    (let packet1 = fold (\<lambda>i p. p[i := magicHeader]) [0..<headerSize] packet
     in fold (\<lambda>repeat p.
               (let offset = headerSize + repeat * length macBytes
                in fold (\<lambda>i q. q[offset + i := macBytes ! i]) [0..<length macBytes] p))
             [0..<macRepeatCount] packet1)"

section \<open>Validation of the broadcast address\<close>

text \<open>
  The decimal digits at the front of the input, accumulated without bound; returns the
  value and the unread rest.
\<close>

fun scan_dec_digits :: "nat \<Rightarrow> wstring \<Rightarrow> nat \<times> wstring" where
  "scan_dec_digits acc [] = (acc, [])"
| "scan_dec_digits acc (ch # rest) =
    (if iswdigit ch then scan_dec_digits (acc * 10 + (unat ch - 0x30)) rest
     else (acc, ch # rest))"

text \<open>
  The subject sequence of \<open>wcstol\<close> and \<open>wcstoul\<close> in base 10: leading white space is
  skipped, one optional sign is taken, then the decimal digits. \<open>Subject negative m n\<close>
  gives the sign, the magnitude and the number of characters up to the end of the
  digits (where \<open>endPtr\<close> points); \<open>NoConversion\<close> when no digit is found.
\<close>

datatype subject = NoConversion | Subject bool nat nat

definition strto_subject :: "wstring \<Rightarrow> subject" where
  "strto_subject s =
    (let s1 = dropWhile iswspace s;
         negative = (case s1 of [] \<Rightarrow> False | ch # rest \<Rightarrow> ch = 0x2D);
         s2 = (case s1 of [] \<Rightarrow> [] | ch # rest \<Rightarrow> if ch = 0x2D \<or> ch = 0x2B then rest else s1)
     in (case s2 of
           [] \<Rightarrow> NoConversion
         | d # r \<Rightarrow>
             (if iswdigit d then
                (case scan_dec_digits 0 s2 of
                   (m, rest) \<Rightarrow> Subject negative m (length s - length rest))
              else NoConversion)))"

text \<open>
  \<open>wcstol(s, &endPtr, 10)\<close> for a 32-bit \<open>long\<close>: the value, the offset of \<open>endPtr\<close>
  from \<open>s\<close>, and whether \<open>errno\<close> is set to \<open>ERANGE\<close>. Without a conversion the value is
  0 and \<open>endPtr\<close> is \<open>s\<close>; out of range the value is clamped.
\<close>

definition wcstol :: "wstring \<Rightarrow> int \<times> nat \<times> bool" where
  "wcstol s =
    (case strto_subject s of
       NoConversion \<Rightarrow> (0, 0, False)
     | Subject negative m n \<Rightarrow>
         (if negative then
            (if int m > 2147483648 then (- 2147483648, n, True) else (- int m, n, False))
          else
            (if int m > 2147483647 then (2147483647, n, True) else (int m, n, False))))"

text \<open>
  \<open>wcstoul(s, &endPtr, 10)\<close> for a 32-bit \<open>unsigned long\<close>: as above; a magnitude above
  \<open>ULONG_MAX\<close> gives \<open>ULONG_MAX\<close> and \<open>ERANGE\<close>, and a leading minus negates the value
  in the unsigned type.
\<close>

definition wcstoul :: "wstring \<Rightarrow> 32 word \<times> nat \<times> bool" where
  "wcstoul s =
    (case strto_subject s of
       NoConversion \<Rightarrow> (0, 0, False)
     | Subject negative m n \<Rightarrow>
         (if m > 4294967295 then (0xFFFFFFFF, n, True)
          else (if negative then - of_nat m else of_nat m, n, False)))"

text \<open>The range-\<open>for\<close> loop of \<open>IsValidateIpOctet\<close>: \<open>False\<close> when it returns the error.\<close>

fun IsValidateIpOctet_digits :: "wstring \<Rightarrow> bool" where
  "IsValidateIpOctet_digits [] = True"
| "IsValidateIpOctet_digits (ch # rest) =
    (if iswdigit ch = False then False else IsValidateIpOctet_digits rest)"

text \<open>
  \<open>WolConfig::IsValidateIpOctet\<close>. \<open>wcstol\<close> reads a NUL-terminated copy of the octet.
  The test \<open>endPtr == octet.data()\<close> compares a pointer into that copy with a pointer
  into the viewed string, which are different objects, so only \<open>*endPtr != L'\0'\<close> can
  hold: \<open>endPtr\<close> stops before the end of the copy. \<open>errno\<close> is never \<open>EINVAL\<close> for base 10.
\<close>

definition IsValidateIpOctet :: "wstring \<Rightarrow> WolErrorCode" where
  "IsValidateIpOctet octet =
    (if octet = [] \<or> length octet > 3 then InvalidBroadcastIp
     else if IsValidateIpOctet_digits octet = False then InvalidBroadcastIp
     else if length octet > 1 \<and> octet ! 0 = 0x30 then InvalidBroadcastIp
     else (case wcstol (c_str octet) of
             (val, endPtr, erange) \<Rightarrow>
               (if erange then InvalidBroadcastIp
                else if endPtr < length (c_str octet) then InvalidBroadcastIp
                else if val < 0 \<or> val > 255 then InvalidBroadcastIp
                else Success)))"

text \<open>
  \<open>std::wstring_view::substr(pos, count)\<close>: throws \<open>std::out_of_range\<close> (\<open>None\<close>) when
  \<open>pos\<close> is beyond the size.
\<close>

definition substr :: "wstring \<Rightarrow> nat \<Rightarrow> nat \<Rightarrow> wstring option" where
  "substr s pos count = (if pos > length s then None else Some (take count (drop pos s)))"

text \<open>
  The \<open>for\<close> loop of \<open>WolConfig::IsValidBroadcastIpAddress\<close> from index \<open>i\<close> on, with the
  local variables \<open>start\<close> and \<open>dotCount\<close>, and the test on \<open>dotCount\<close> after the loop. An
  exception of \<open>substr\<close> is caught and gives \<open>UnexpectedException\<close>.
\<close>

function IsValidBroadcastIpAddress_loop :: "wstring \<Rightarrow> nat \<Rightarrow> nat \<Rightarrow> nat \<Rightarrow> WolErrorCode" where
  "IsValidBroadcastIpAddress_loop ip i start dotCount =
    (if i \<le> length ip then
       (if i = length ip \<or> ip ! i = 0x2E then
          (case substr ip start (i - start) of
             None \<Rightarrow> UnexpectedException
           | Some octet \<Rightarrow>
               (if IsValidateIpOctet octet \<noteq> Success then IsValidateIpOctet octet
                else if (if i < length ip then dotCount + 1 else dotCount) > 3
                then InvalidBroadcastIp
                else IsValidBroadcastIpAddress_loop ip (i + 1) (i + 1)
                       (if i < length ip then dotCount + 1 else dotCount)))
        else IsValidBroadcastIpAddress_loop ip (i + 1) start dotCount)
     else (if dotCount \<noteq> 3 then InvalidBroadcastIp else Success))"
  by pat_completeness auto
termination
  by (relation "measure (\<lambda>(ip, i, start, dotCount). Suc (length ip) - i)") auto

definition IsValidBroadcastIpAddress :: "wstring \<Rightarrow> WolErrorCode" where
  "IsValidBroadcastIpAddress broadcastIpAddress =
     IsValidBroadcastIpAddress_loop broadcastIpAddress 0 0 0"

section \<open>The configuration\<close>

record WolConfig =
  mMacAddress :: wstring
  mBroadcastIp :: wstring
  mPort :: "16 word"

text \<open>The default member initialisers: two empty strings and port 0.\<close>

definition WolConfig_init :: WolConfig where
  "WolConfig_init = \<lparr>mMacAddress = [], mBroadcastIp = [], mPort = 0\<rparr>"

text \<open>The three getters of \<open>WolConfig\<close>.\<close>

definition GetMacAddress :: "WolConfig \<Rightarrow> wstring" where
  "GetMacAddress config = mMacAddress config"

definition GetBroadcastIp :: "WolConfig \<Rightarrow> wstring" where
  "GetBroadcastIp config = mBroadcastIp config"

definition GetPort :: "WolConfig \<Rightarrow> 16 word" where
  "GetPort config = mPort config"

definition IsConfigurationValid :: "WolConfig \<Rightarrow> WolErrorCode" where
  "IsConfigurationValid config =
    (if IsValidMacAddress (mMacAddress config) \<noteq> Success
     then IsValidMacAddress (mMacAddress config)
     else if IsValidBroadcastIpAddress (mBroadcastIp config) \<noteq> Success
     then IsValidBroadcastIpAddress (mBroadcastIp config)
     else Success)"

text \<open>
  What the operating system answers to \<open>LoadFromIni\<close>: the return value of
  \<open>GetModuleFileNameW\<close>, the directory of the executable as \<open>std::filesystem\<close> computes it
  (\<open>None\<close> when it throws), whether the configuration file exists, and the values of
  the three keys of section \<open>[Target]\<close> (\<open>None\<close> for a missing key).
\<close>

record environment =
  module_file_name_length :: nat
  exe_dir :: "wstring option"
  config_file_exists :: bool
  ini_MacAddress :: "wstring option"
  ini_BroadcastIp :: "wstring option"
  ini_Port :: "wstring option"

definition MAX_BUFFER_SIZE :: nat where
  "MAX_BUFFER_SIZE = 256"

definition MAX_PATH_LENGTH :: nat where
  "MAX_PATH_LENGTH = 260"

text \<open>
  \<open>WolConfig::GetConfigFilePath\<close>, reduced to its error code; the path itself is only
  handed back to the operating system.
\<close>

definition GetConfigFilePath :: "environment \<Rightarrow> WolErrorCode" where
  "GetConfigFilePath env =
    (if module_file_name_length env = 0 \<or> module_file_name_length env \<ge> MAX_PATH_LENGTH
     then FailedToGetExecutionPath
     else (case exe_dir env of
             None \<Rightarrow> UnexpectedException
           | Some exeDir \<Rightarrow> if exeDir = [] then InvalidExecutionPath else Success))"

text \<open>
  \<open>GetPrivateProfileStringW\<close> for a key with the given stored value: the default is
  taken for a missing key, the string is cut to \<open>nSize - 1\<close> characters, and the
  number of characters copied is returned with the buffer's contents.
\<close>

definition GetPrivateProfileStringW :: "wstring option \<Rightarrow> wstring \<Rightarrow> nat \<Rightarrow> nat \<times> wstring" where
  "GetPrivateProfileStringW stored dflt nSize =
    (let copied = take (nSize - 1) (case stored of None \<Rightarrow> dflt | Some v \<Rightarrow> v)
     in (length copied, copied))"

text \<open>
  \<open>WolConfig::LoadFromIni\<close>: the returned code and the members afterwards. The three
  reads, the conversion of the port with \<open>wcstoul\<close>, and the final validation, in the
  order of the source; each early \<open>return\<close> leaves the members as they are at that
  point.
\<close>

definition LoadFromIni :: "environment \<Rightarrow> WolConfig \<Rightarrow> WolErrorCode \<times> WolConfig" where
  "LoadFromIni env config =
    (if GetConfigFilePath env \<noteq> Success then (GetConfigFilePath env, config)
     else if config_file_exists env = False then (ConfigFileNotFound, config)
     else (case GetPrivateProfileStringW (ini_MacAddress env) [] MAX_BUFFER_SIZE of
       (macResult, macBuffer) \<Rightarrow>
     if macResult = 0 then (FailedToReadMacAddress, config)
     else (let config1 = config\<lparr>mMacAddress := c_str macBuffer\<rparr> in
     (case GetPrivateProfileStringW (ini_BroadcastIp env) (L ''255.255.255.255'')
             MAX_BUFFER_SIZE of
       (ipResult, ipBuffer) \<Rightarrow>
     if ipResult = 0 then (FailedToReadBroadcastIp, config1)
     else (let config2 = config1\<lparr>mBroadcastIp := c_str ipBuffer\<rparr> in
     (case GetPrivateProfileStringW (ini_Port env) [] MAX_BUFFER_SIZE of
       (portResult, portBuffer) \<Rightarrow>
     if portResult = 0 then (FailedToReadPort, config2)
     else if length (c_str portBuffer) = 0 then (InvalidPort, config2)
     else (case wcstoul (c_str portBuffer) of
       (port, endPtr, erange) \<Rightarrow>
     if erange then (InvalidPort, config2)
     else if endPtr = 0 \<or> endPtr < length (c_str portBuffer) then (InvalidPort, config2)
     else if port = 0 \<or> port > 65535 then (InvalidPort, config2)
     else (let config3 = config2\<lparr>mPort := ucast port\<rparr> in
     if IsConfigurationValid config3 \<noteq> Success
     then (IsConfigurationValid config3,
           config3\<lparr>mMacAddress := [], mBroadcastIp := [], mPort := 0\<rparr>)
     else (Success, config3)))))))))"

section \<open>Sending the magic packet\<close>

text \<open>
  The calls into WinSock are recorded in a trace; what WinSock answers is a parameter.
  \<open>socket_result = None\<close> stands for \<open>INVALID_SOCKET\<close>. The two calls of
  \<open>WideCharToMultiByte\<close> and the call of \<open>inet_pton\<close> are given as functions of the
  broadcast address.
\<close>

record sockaddr_in =
  sin_family :: nat
  sin_port :: "16 word"
  sin_addr :: "32 word"

datatype net_event =
    WSAStartup_call
  | WSACleanup_call
  | socket_call
  | WSAIoctl_call
  | setsockopt_call
  | sendto_call "byte list" sockaddr_in
  | closesocket_call

record winsock =
  WSAStartup_result :: int
  socket_result :: "nat option"
  setsockopt_result :: int
  WideCharToMultiByte_size :: "wstring \<Rightarrow> int"
  WideCharToMultiByte_result :: "wstring \<Rightarrow> int"
  inet_pton_result :: "wstring \<Rightarrow> int \<times> 32 word"
  sendto_result :: int

text \<open>
  The state of the process that matters here: the static \<open>WsaGuard::mRefCount\<close>
  (\<open>unsigned long long\<close>) and the trace of WinSock calls so far.
\<close>

record process =
  mRefCount :: "64 word"
  trace :: "net_event list"

definition process_init :: process where
  "process_init = \<lparr>mRefCount = 0, trace = []\<rparr>"

definition SOCKET_ERROR :: int where
  "SOCKET_ERROR = - 1"

definition AF_INET :: nat where
  "AF_INET = 2"

definition UINT16_MAX :: "16 word" where
  "UINT16_MAX = 65535"

text \<open>
  \<open>htons\<close> on a little-endian host swaps the two bytes; the shifted halves share no
  bit, so their sum is their union.
\<close>

definition htons :: "16 word \<Rightarrow> 16 word" where
  "htons x = push_bit 8 x + drop_bit 8 x"

definition WsaGuard_Initialize :: "winsock \<Rightarrow> process \<Rightarrow> WolErrorCode \<times> process" where
  "WsaGuard_Initialize ws p =
    (let p1 = p\<lparr>trace := trace p @ [WSAStartup_call]\<rparr>
     in if WSAStartup_result ws \<noteq> 0 then (WinsockInitializationFailed, p1)
        else (Success, p1\<lparr>mRefCount := mRefCount p1 + 1\<rparr>))"

text \<open>\<open>WsaGuard::~WsaGuard\<close>.\<close>

definition WsaGuard_destructor :: "process \<Rightarrow> process" where
  "WsaGuard_destructor p =
    (let p1 = p\<lparr>mRefCount := mRefCount p - 1\<rparr>
     in if mRefCount p1 = 0 then p1\<lparr>trace := trace p1 @ [WSACleanup_call]\<rparr> else p1)"

text \<open>\<open>Socket::Close\<close>, which is all that \<open>Socket::~Socket\<close> does.\<close>

definition Socket_Close :: "nat option \<Rightarrow> process \<Rightarrow> process" where
  "Socket_Close mSocket p =
    (case mSocket of
       None \<Rightarrow> p
     | Some handle \<Rightarrow> p\<lparr>trace := trace p @ [closesocket_call]\<rparr>)"

text \<open>
  \<open>WakeOnLanSender::InitializeSocket\<close> on a \<open>Socket\<close> that holds \<open>INVALID_SOCKET\<close>:
  the code, the handle the \<open>Socket\<close> holds afterwards, and the process.
\<close>

definition InitializeSocket :: "winsock \<Rightarrow> process \<Rightarrow> WolErrorCode \<times> nat option \<times> process" where
  "InitializeSocket ws p =
    (let p1 = p\<lparr>trace := trace p @ [socket_call]\<rparr>
     in (case socket_result ws of
           None \<Rightarrow> (SocketCreationFailed, None, p1)
         | Some rawSocket \<Rightarrow>
             (Success, Some rawSocket, p1\<lparr>trace := trace p1 @ [WSAIoctl_call]\<rparr>)))"

text \<open>
  \<open>WakeOnLanSender::SetupBroadcastAddress\<close>: \<open>None\<close> is a failed \<open>assert\<close>, otherwise the
  code and \<open>destAddr\<close>. The two assertions come first, as in the source.
\<close>

definition SetupBroadcastAddress :: "winsock \<Rightarrow> wstring \<Rightarrow> 16 word \<Rightarrow> (WolErrorCode \<times> sockaddr_in) option" where
  "SetupBroadcastAddress ws broadcastAddress port =
    (if broadcastAddress = [] then None
     else if port \<noteq> 0 \<and> port < UINT16_MAX then
       (let destAddr = \<lparr>sin_family = AF_INET, sin_port = htons port, sin_addr = 0\<rparr>;
            sizeNeeded = WideCharToMultiByte_size ws broadcastAddress;
            conversionResult = WideCharToMultiByte_result ws broadcastAddress
        in if conversionResult = 0 then Some (BroadcastSetupFailed, destAddr)
           else if conversionResult \<noteq> sizeNeeded then Some (BroadcastSetupFailed, destAddr)
           else (case inet_pton_result ws broadcastAddress of
                   (ptonResult, addr) \<Rightarrow>
                     if ptonResult \<noteq> 1 then Some (BroadcastSetupFailed, destAddr)
                     else Some (Success, destAddr\<lparr>sin_addr := addr\<rparr>)))
     else None)"

text \<open>
  \<open>WakeOnLanSender::SendMagicPacket\<close>: \<open>None\<close> is a failed \<open>assert\<close> (the process is
  aborted, no destructor runs); on every \<open>return\<close> the destructors of \<open>socket\<close> and
  \<open>wsaGuard\<close> run, in this order.
\<close>

definition SendMagicPacket_leave :: "nat option \<Rightarrow> process \<Rightarrow> process" where
  "SendMagicPacket_leave socket p = WsaGuard_destructor (Socket_Close socket p)"

definition SendMagicPacket :: "winsock \<Rightarrow> wstring \<Rightarrow> wstring \<Rightarrow> 16 word \<Rightarrow> process \<Rightarrow> WolErrorCode option \<times> process" where
  "SendMagicPacket ws macAddress broadcastAddress port p =
    (if macAddress = [] then (None, p)
     else if broadcastAddress = [] then (None, p)
     else if port = 0 then (None, p)
     else (case ParseMacAddress macAddress of
       None \<Rightarrow> (None, p)
     | Some macBytes \<Rightarrow>
     (let packet = CreateMagicPacket macBytes (replicate 102 0) in
     (case WsaGuard_Initialize ws p of
       (wolErrorCode, p1) \<Rightarrow>
     if wolErrorCode \<noteq> Success then (Some wolErrorCode, WsaGuard_destructor p1)
     else (case InitializeSocket ws p1 of
       (wolErrorCode2, socket, p2) \<Rightarrow>
     if wolErrorCode2 \<noteq> Success then (Some wolErrorCode2, SendMagicPacket_leave socket p2)
     else (let p3 = p2\<lparr>trace := trace p2 @ [setsockopt_call]\<rparr> in
     if setsockopt_result ws = SOCKET_ERROR
     then (Some BroadcastSetupFailed, SendMagicPacket_leave socket p3)
     else (case SetupBroadcastAddress ws broadcastAddress port of
       None \<Rightarrow> (None, p3)
     | Some (wolErrorCode3, destAddr) \<Rightarrow>
     if wolErrorCode3 \<noteq> Success then (Some wolErrorCode3, SendMagicPacket_leave socket p3)
     else (let p4 = p3\<lparr>trace := trace p3 @ [sendto_call packet destAddr]\<rparr> in
     if sendto_result ws = SOCKET_ERROR
     then (Some PacketSendFailed, SendMagicPacket_leave socket p4)
     else (Some Success, SendMagicPacket_leave socket p4)))))))))"

text \<open>
  \<open>main\<close>, without the console output: the exit code (\<open>None\<close> for an abort on a failed
  \<open>assert\<close>) and the process at the end.
\<close>

definition main :: "environment \<Rightarrow> winsock \<Rightarrow> int option \<times> process" where
  "main env ws =
    (case LoadFromIni env WolConfig_init of
       (errorCode, config) \<Rightarrow>
         if errorCode \<noteq> Success then (Some (uint (enum_value errorCode)), process_init)
         else (case SendMagicPacket ws (GetMacAddress config) (GetBroadcastIp config)
                      (GetPort config) process_init of
                 (None, p) \<Rightarrow> (None, p)
               | (Some sendCode, p) \<Rightarrow> (Some (uint (enum_value sendCode)), p)))"

section \<open>Notions of the specification\<close>

text \<open>
  The MAC format of the specification, \<open>^[0-9A-Fa-f]{2}(-[0-9A-Fa-f]{2}){5}$\<close>:
  \<open>hex_char\<close> is the character class, \<open>match_groups n\<close> the group \<open>(-XX)\<close> repeated
  \<open>n\<close> times up to the end of the string.
\<close>

definition hex_chars :: wstring where
  "hex_chars = L ''0123456789ABCDEFabcdef''"

definition hex_char :: "wchar \<Rightarrow> bool" where
  "hex_char ch \<longleftrightarrow> ch \<in> set hex_chars"

fun match_groups :: "nat \<Rightarrow> wstring \<Rightarrow> bool" where
  "match_groups 0 s = (s = [])"
| "match_groups (Suc n) (d # a # b # rest) =
    (d = 0x2D \<and> hex_char a \<and> hex_char b \<and> match_groups n rest)"
| "match_groups (Suc n) s = False"

definition mac_format :: "wstring \<Rightarrow> bool" where
  "mac_format s =
    (case s of
       a # b # rest \<Rightarrow> hex_char a \<and> hex_char b \<and> match_groups 5 rest
     | _ \<Rightarrow> False)"

text \<open>
  The value of a hexadecimal digit by table, and the values of the two-character
  groups of a string \<open>XX-XX-...-XX\<close> from left to right.
\<close>

definition hex_value_of :: "wchar \<Rightarrow> nat" where
  "hex_value_of ch =
    (case map_of (zip hex_chars [0, 1, 2, 3, 4, 5, 6, 7, 8, 9, 10, 11, 12, 13, 14, 15,
                                 10, 11, 12, 13, 14, 15]) ch of
       Some v \<Rightarrow> v
     | None \<Rightarrow> 0)"

fun group_values :: "wstring \<Rightarrow> nat list" where
  "group_values (a # b # rest) =
     (16 * hex_value_of a + hex_value_of b) # group_values (drop 1 rest)"
| "group_values s = []"

text \<open>
  The dotted form of the specification: the segments between the dots, the decimal
  value of a segment, the octet rule, and the canonical decimal text of a number.
\<close>

fun split_dots :: "wstring \<Rightarrow> wstring list" where
  "split_dots [] = [[]]"
| "split_dots (ch # rest) =
    (if ch = 0x2E then [] # split_dots rest
     else (ch # hd (split_dots rest)) # tl (split_dots rest))"

definition octet_value :: "wstring \<Rightarrow> nat" where
  "octet_value s = foldl (\<lambda>acc ch. acc * 10 + (unat ch - 0x30)) 0 s"

definition octet_rule :: "wstring \<Rightarrow> bool" where
  "octet_rule s \<longleftrightarrow>
     1 \<le> length s \<and> length s \<le> 3 \<and> list_all iswdigit s \<and> octet_value s \<le> 255
     \<and> \<not> (length s > 1 \<and> hd s = 0x30)"

definition digit_char :: "nat \<Rightarrow> wchar" where
  "digit_char d = of_nat (0x30 + d)"

fun dec_string :: "nat \<Rightarrow> wstring" where
  "dec_string n =
    (if n < 10 then [digit_char n] else dec_string (n div 10) @ [digit_char (n mod 10)])"

definition ipv4_string :: "nat \<Rightarrow> nat \<Rightarrow> nat \<Rightarrow> nat \<Rightarrow> wstring" where
  "ipv4_string a b c d =
     dec_string a @ [0x2E] @ dec_string b @ [0x2E] @ dec_string c @ [0x2E] @ dec_string d"

text \<open>
  The loop of \<open>IsValidBroadcastIpAddress\<close> once more, by recursion over the unread
  characters with the characters of the current octet collected in \<open>octet\<close>; it is
  shown below to compute what the loop over indices computes.
\<close>

fun ip_scan :: "wstring \<Rightarrow> wstring \<Rightarrow> nat \<Rightarrow> WolErrorCode" where
  "ip_scan octet [] dotCount =
    (if IsValidateIpOctet octet \<noteq> Success then IsValidateIpOctet octet
     else if dotCount > 3 then InvalidBroadcastIp
     else if dotCount \<noteq> 3 then InvalidBroadcastIp
     else Success)"
| "ip_scan octet (ch # rest) dotCount =
    (if ch = 0x2E then
       (if IsValidateIpOctet octet \<noteq> Success then IsValidateIpOctet octet
        else if dotCount + 1 > 3 then InvalidBroadcastIp
        else ip_scan [] rest (dotCount + 1))
     else ip_scan (octet @ [ch]) rest dotCount)"

text \<open>
  The string \<open>LoadFromIni\<close> stores for a key: what \<open>GetPrivateProfileStringW\<close> puts
  into the 256-character buffer, read up to the first NUL.
\<close>

definition loaded :: "wstring option \<Rightarrow> wstring \<Rightarrow> wstring" where
  "loaded stored dflt = c_str (snd (GetPrivateProfileStringW stored dflt MAX_BUFFER_SIZE))"

text \<open>
  A configuration file that is found and holds the three given values, and a WinSock
  in which every call succeeds.
\<close>

definition config_file :: "wstring \<Rightarrow> wstring \<Rightarrow> wstring \<Rightarrow> environment" where
  "config_file mac ip port =
    \<lparr>module_file_name_length = 14, exe_dir = Some (L ''C:/WOL''), config_file_exists = True,
     ini_MacAddress = Some mac, ini_BroadcastIp = Some ip, ini_Port = Some port\<rparr>"

definition winsock_ok :: winsock where
  "winsock_ok =
    \<lparr>WSAStartup_result = 0, socket_result = Some 1, setsockopt_result = 0,
     WideCharToMultiByte_size = (\<lambda>s. int (length s)),
     WideCharToMultiByte_result = (\<lambda>s. int (length s)),
     inet_pton_result = (\<lambda>s. (1, 0xFFFFFFFF)), sendto_result = 102\<rparr>"

section \<open>Properties of the MAC address functions and of the packet\<close>

lemma hex_char_cases:
  "hex_char ch \<longleftrightarrow> ch = 0x30 \<or> ch = 0x31 \<or> ch = 0x32 \<or> ch = 0x33 \<or> ch = 0x34 \<or> ch = 0x35
     \<or> ch = 0x36 \<or> ch = 0x37 \<or> ch = 0x38 \<or> ch = 0x39
     \<or> ch = 0x41 \<or> ch = 0x42 \<or> ch = 0x43 \<or> ch = 0x44 \<or> ch = 0x45 \<or> ch = 0x46
     \<or> ch = 0x61 \<or> ch = 0x62 \<or> ch = 0x63 \<or> ch = 0x64 \<or> ch = 0x65 \<or> ch = 0x66"
  by (simp add: hex_char_def hex_chars_def L_def)

lemma hex_char_value:
  assumes "hex_char ch"
  shows "hex_digit_value ch = Some (hex_value_of ch)"
  using assms unfolding hex_char_cases
  by (elim disjE) (simp_all add: hex_digit_value_def hex_value_of_def hex_chars_def L_def)

lemma hex_value_of_less: "hex_value_of ch < 16"
  by (simp add: hex_value_of_def hex_chars_def L_def)

lemma hex_char_not_special:
  assumes "hex_char ch"
  shows "\<not> iswspace ch" "ch \<noteq> 0x2D" "ch \<noteq> 0x2B" "ch \<noteq> 0x78" "ch \<noteq> 0x58" "ch \<noteq> 0"
  using assms unfolding hex_char_cases
  by (auto simp: iswspace_def)

lemma hex_char_range:
  "hex_char ch \<longleftrightarrow> (0x30 \<le> ch \<and> ch \<le> 0x39) \<or> (0x41 \<le> ch \<and> ch \<le> 0x46) \<or> (0x61 \<le> ch \<and> ch \<le> 0x66)"
  unfolding hex_char_cases
  by (simp add: word_le_nat_alt word_unat_eq_iff) arith


lemma hex_digit_value_dash: "hex_digit_value 0x2D = None"
  by (simp add: hex_digit_value_def)

lemma scan_hex_digits_pair:
  assumes "hex_char a" "hex_char b" "rest = [] \<or> (\<exists>r. rest = 0x2D # r)"
  shows "scan_hex_digits 0 (a # b # rest) = (of_nat (16 * hex_value_of a + hex_value_of b), rest)"
proof -
  have v: "(0 * 16 + of_nat (hex_value_of a)) * 16 + of_nat (hex_value_of b)
        = (of_nat (16 * hex_value_of a + hex_value_of b) :: 32 word)"
    by simp
  from assms(3) have r: "scan_hex_digits acc rest = (acc, rest)" for acc
    by (auto simp: hex_digit_value_dash)
  show ?thesis
    by (simp only: scan_hex_digits.simps hex_char_value[OF assms(1)] hex_char_value[OF assms(2)]
          option.case r v)
qed

lemma scan_x_prefix_pair:
  assumes "hex_char b"
  shows "scan_x_prefix (a # b # rest) = a # b # rest"
  using hex_char_not_special[OF assms]
  by (cases rest) (simp_all add: scan_x_prefix_def)

lemma scan_x_pair:
  assumes "hex_char a" "hex_char b" "rest = [] \<or> (\<exists>r. rest = 0x2D # r)"
  shows "scan_x (a # b # rest) = Converted (of_nat (16 * hex_value_of a + hex_value_of b)) rest"
  using hex_char_not_special[OF assms(1)] assms
  by (simp add: scan_x_def scan_x_digits_def scan_x_prefix_pair scan_hex_digits_pair
        hex_char_value del: scan_hex_digits.simps)

lemma match_groups_end: "match_groups n s \<Longrightarrow> s = [] \<or> (\<exists>r. s = 0x2D # r)"
  by (induction n s rule: match_groups.induct) simp_all

lemma swscanf_s_rest_groups:
  "match_groups n s \<Longrightarrow>
     swscanf_s_rest n s = map of_nat (group_values (drop 1 s)) \<and> length (group_values (drop 1 s)) = n"
proof (induction n s rule: match_groups.induct)
  case (1 s)
  then show ?case by simp
next
  case (2 n d a b rest)
  then have h: "hex_char a" "hex_char b" "match_groups n rest" "d = 0x2D" by simp_all
  from match_groups_end[OF h(3)] have e: "rest = [] \<or> (\<exists>r. rest = 0x2D # r)" .
  show ?case using 2 h by (simp add: scan_x_pair[OF h(1,2) e])
qed simp_all

lemma match_groups_no_nul: "match_groups n s \<Longrightarrow> 0 \<notin> set s"
  by (induction n s rule: match_groups.induct) (auto dest: hex_char_not_special(6))

lemma mac_format_no_nul: "mac_format s \<Longrightarrow> c_str s = s"
  unfolding c_str_def mac_format_def
  by (auto split: list.splits dest: hex_char_not_special(6) match_groups_no_nul)

lemma swscanf_s_mac_format:
  assumes "mac_format s"
  shows "swscanf_s_mac s = (6, map of_nat (group_values s))" "length (group_values s) = 6"
proof -
  from assms obtain a b rest where s: "s = a # b # rest" and h: "hex_char a" "hex_char b"
    and m: "match_groups 5 rest"
    by (auto simp: mac_format_def split: list.splits)
  from match_groups_end[OF m] have e: "rest = [] \<or> (\<exists>r. rest = 0x2D # r)" .
  from swscanf_s_rest_groups[OF m] show "swscanf_s_mac s = (6, map of_nat (group_values s))"
    by (simp add: s swscanf_s_mac_def scan_x_pair[OF h e])
  from swscanf_s_rest_groups[OF m] show "length (group_values s) = 6"
    by (simp add: s)
qed

lemma group_values_bound: "v \<in> set (group_values s) \<Longrightarrow> v < 256"
proof (induction s rule: group_values.induct)
  case (1 a b rest)
  have "16 * hex_value_of a + hex_value_of b < 256"
    using hex_value_of_less[of a] hex_value_of_less[of b] by arith
  with 1 show ?case by auto
qed simp_all

lemma byte_of_small:
  assumes "n < 256"
  shows "unat (ucast (of_nat n :: 32 word) :: byte) = n"
  using assms by (simp add: unsigned_ucast_eq unat_of_nat take_bit_eq_mod)

lemma ParseMacAddress_format:
  assumes "mac_format s"
  shows "ParseMacAddress s = Some (map (\<lambda>v. ucast (of_nat v :: 32 word)) (group_values s))"
proof -
  from assms have ne: "s \<noteq> []" by (auto simp: mac_format_def)
  note f = swscanf_s_mac_format[OF assms]
  have "map (\<lambda>i. (ucast (map of_nat (group_values s) ! i :: 32 word) :: byte)) [0..<6]
      = map (\<lambda>v. ucast (of_nat v :: 32 word)) (group_values s)"
    using f(2) by (intro nth_equalityI) simp_all
  then show ?thesis
    using ne f by (simp add: ParseMacAddress_def mac_format_no_nul[OF assms])
qed

lemma ParseMacAddress_unat:
  assumes "mac_format s"
  shows "\<exists>mac. ParseMacAddress s = Some mac \<and> length mac = 6 \<and> map unat mac = group_values s"
proof -
  have "map unat (map (\<lambda>v. (ucast (of_nat v :: 32 word) :: byte)) (group_values s)) = group_values s"
    by (rule map_idI[THEN trans[OF map_map[THEN trans]], OF _ refl]) (simp_all add: byte_of_small group_values_bound)
  then show ?thesis
    using ParseMacAddress_format[OF assms] swscanf_s_mac_format(2)[OF assms] by simp
qed

lemma fold_header_length:
  "length (fold (\<lambda>i p. p[i := c]) [0..<n] p) = length p"
  by (induction n) simp_all

lemma fold_header_nth:
  "j < length p \<Longrightarrow> fold (\<lambda>i p. p[i := c]) [0..<n] p ! j = (if j < n then c else p ! j)"
  by (induction n) (auto simp: nth_list_update fold_header_length less_Suc_eq)

lemma fold_copy_length:
  "length (fold (\<lambda>i q. q[off + i := f i]) [0..<n] p) = length p"
  by (induction n) simp_all

lemma fold_copy_nth:
  "j < length p \<Longrightarrow> fold (\<lambda>i q. q[off + i := f i]) [0..<n] p ! j
       = (if off \<le> j \<and> j < off + n then f (j - off) else p ! j)"
  by (induction n) (auto simp: nth_list_update fold_copy_length less_Suc_eq)

lemma fold_repeat_length:
  "length (fold (\<lambda>repeat. fold (\<lambda>i q. q[h + repeat * m + i := f i]) [0..<m]) [0..<n] p)
     = length p"
  by (induction n) (simp_all add: fold_copy_length)

lemma fold_repeat_nth:
  assumes "j < length p" "0 < m"
  shows "fold (\<lambda>repeat. fold (\<lambda>i q. q[h + repeat * m + i := f i]) [0..<m]) [0..<n] p ! j
       = (if h \<le> j \<and> j < h + n * m then f ((j - h) mod m) else p ! j)"
proof (induction n)
  case 0
  then show ?case by auto
next
  case (Suc n)
  let ?q = "fold (\<lambda>repeat. fold (\<lambda>i q. q[h + repeat * m + i := f i]) [0..<m]) [0..<n] p"
  have len: "j < length ?q" using assms(1) by (simp add: fold_repeat_length)
  have step: "fold (\<lambda>repeat. fold (\<lambda>i q. q[h + repeat * m + i := f i]) [0..<m]) [0..<Suc n] p ! j
        = (if h + n * m \<le> j \<and> j < h + n * m + m then f (j - (h + n * m)) else ?q ! j)"
    using fold_copy_nth[OF len, of "h + n * m" f m] by simp
  show ?case
  proof (cases "h + n * m \<le> j \<and> j < h + n * m + m")
    case True
    then have "j - h = (j - (h + n * m)) + n * m" by simp
    then have "(j - h) mod m = (j - (h + n * m)) mod m" by (metis mod_mult_self1)
    moreover from True have "j - (h + n * m) < m" by arith
    ultimately have "(j - h) mod m = j - (h + n * m)" by simp
    with True show ?thesis unfolding step by auto
  next
    case False
    then show ?thesis unfolding step using Suc by auto
  qed
qed

lemma CreateMagicPacket_length:
  "length (CreateMagicPacket macBytes packet) = length packet"
  by (simp add: CreateMagicPacket_def Let_def fold_repeat_length fold_header_length del: fold_simps)

lemma CreateMagicPacket_nth:
  assumes "length macBytes = 6" "j < length packet"
  shows "CreateMagicPacket macBytes packet ! j
       = (if j < 6 then 0xFF else if j < 102 then macBytes ! ((j - 6) mod 6) else packet ! j)"
  using assms
  by (simp add: CreateMagicPacket_def Let_def fold_repeat_nth fold_header_nth fold_header_length
        headerSize_def macRepeatCount_def magicHeader_def del: fold_simps upt_Suc)

lemma group_values_nth:
  "i < length (group_values s) \<Longrightarrow>
     group_values s ! i = 16 * hex_value_of (s ! (3 * i)) + hex_value_of (s ! (3 * i + 1))"
proof (induction s arbitrary: i rule: group_values.induct)
  case (1 a b rest)
  show ?case
  proof (cases i)
    case 0
    then show ?thesis by simp
  next
    case (Suc k)
    with 1 have k: "k < length (group_values (drop 1 rest))" by simp
    then have "rest \<noteq> []" by auto
    then have d: "drop (Suc 0) rest ! j = rest ! Suc j" for j by (cases rest) simp_all
    have "3 * i = Suc (Suc (Suc (3 * k)))" "3 * i + 1 = Suc (Suc (Suc (3 * k + 1)))"
      using Suc by simp_all
    then show ?thesis using "1.IH"[OF k] Suc by (simp add: d)
  qed
qed simp_all

lemma concat_replicate_nth:
  assumes "xs \<noteq> []" "k < n * length xs"
  shows "concat (replicate n xs) ! k = xs ! (k mod length xs)"
  using assms(2)
proof (induction n arbitrary: k)
  case 0
  then show ?case by simp
next
  case (Suc n)
  show ?case
  proof (cases "k < length xs")
    case True
    then show ?thesis by (simp add: nth_append)
  next
    case False
    then have "k - length xs < n * length xs" using Suc.prems by simp
    from Suc.IH[OF this] False show ?thesis
      by (simp add: nth_append le_mod_geq)
  qed
qed

lemma CreateMagicPacket_concat:
  assumes "length macBytes = 6" "length packet = 102"
  shows "CreateMagicPacket macBytes packet = replicate 6 0xFF @ concat (replicate 16 macBytes)"
proof (rule nth_equalityI)
  show "length (CreateMagicPacket macBytes packet)
      = length (replicate 6 (0xFF :: byte) @ concat (replicate 16 macBytes))"
    using assms by (simp add: CreateMagicPacket_length length_concat sum_list_replicate)
next
  fix j
  assume "j < length (CreateMagicPacket macBytes packet)"
  then have j: "j < 102" using assms by (simp add: CreateMagicPacket_length)
  have ne: "macBytes \<noteq> []" using assms by auto
  show "CreateMagicPacket macBytes packet ! j
      = (replicate 6 0xFF @ concat (replicate 16 macBytes)) ! j"
  proof (cases "j < 6")
    case True
    then show ?thesis using assms j by (simp add: CreateMagicPacket_nth nth_append)
  next
    case False
    with j have "j - 6 < 16 * length macBytes" using assms by simp
    from concat_replicate_nth[OF ne this] False j assms show ?thesis
      by (simp add: CreateMagicPacket_nth nth_append)
  qed
qed

declare IsValidMacAddress_loop.simps [simp del]

lemma all_from_split:
  fixes i n :: nat
  assumes "i < n"
  shows "(\<forall>j. i \<le> j \<and> j < n \<longrightarrow> P j) \<longleftrightarrow> P i \<and> (\<forall>j. i + 1 \<le> j \<and> j < n \<longrightarrow> P j)"
proof
  assume a: "\<forall>j. i \<le> j \<and> j < n \<longrightarrow> P j"
  with assms show "P i \<and> (\<forall>j. i + 1 \<le> j \<and> j < n \<longrightarrow> P j)" by auto
next
  assume b: "P i \<and> (\<forall>j. i + 1 \<le> j \<and> j < n \<longrightarrow> P j)"
  show "\<forall>j. i \<le> j \<and> j < n \<longrightarrow> P j"
  proof (intro allI impI)
    fix j assume "i \<le> j \<and> j < n"
    then show "P j" using b by (cases "j = i") auto
  qed
qed

text \<open>
  The loop of \<open>IsValidMacAddress\<close> returns one of two codes; it succeeds exactly when
  every position from \<open>i\<close> on holds what is asked of it.
\<close>

lemma IsValidMacAddress_loop_codes:
  "IsValidMacAddress_loop s i = Success \<or> IsValidMacAddress_loop s i = InvalidMacAddress"
  by (induction s i rule: IsValidMacAddress_loop.induct)
     (subst (1 2) IsValidMacAddress_loop.simps, simp)

lemma IsValidMacAddress_loop_Success:
  "IsValidMacAddress_loop s i = Success \<longleftrightarrow>
     (\<forall>j. i \<le> j \<and> j < length s \<longrightarrow>
        (if j \<in> {2, 5, 8, 11, 14} then s ! j = 0x2D else hex_char (s ! j)))"
proof (induction s i rule: IsValidMacAddress_loop.induct)
  case (1 s i)
  let ?ok = "\<lambda>j. if j \<in> {2, 5, 8, 11, 14} then s ! j = 0x2D else hex_char (s ! j)"
  show ?case
  proof (cases "i < length s")
    case False
    then show ?thesis by (subst IsValidMacAddress_loop.simps) auto
  next
    case True
    have split: "(\<forall>j. i \<le> j \<and> j < length s \<longrightarrow> ?ok j)
        \<longleftrightarrow> ?ok i \<and> (\<forall>j. i + 1 \<le> j \<and> j < length s \<longrightarrow> ?ok j)"
      using True by (rule all_from_split)
    show ?thesis
    proof (cases "i \<in> {2, 5, 8, 11, 14}")
      case sep: True
      then have m: "i \<in> set MAC_ADDRESS_SEPARATOR_INDICES"
        by (simp add: MAC_ADDRESS_SEPARATOR_INDICES_def)
      show ?thesis
      proof (cases "s ! i = 0x2D")
        case True
        with 1(1)[OF \<open>i < length s\<close> m] \<open>i < length s\<close> m sep show ?thesis
          unfolding split by (subst IsValidMacAddress_loop.simps) (simp add: separator_def)
      next
        case False
        with \<open>i < length s\<close> m sep show ?thesis
          unfolding split by (subst IsValidMacAddress_loop.simps) (simp add: separator_def)
      qed
    next
      case nosep: False
      then have m: "i \<notin> set MAC_ADDRESS_SEPARATOR_INDICES"
        by (simp add: MAC_ADDRESS_SEPARATOR_INDICES_def)
      show ?thesis
      proof (cases "hex_char (s ! i)")
        case True
        then have "(0x30 \<le> s ! i \<and> s ! i \<le> 0x39) \<or> (0x41 \<le> s ! i \<and> s ! i \<le> 0x46)
                   \<or> (0x61 \<le> s ! i \<and> s ! i \<le> 0x66)"
          by (simp add: hex_char_range)
        with 1(2)[OF \<open>i < length s\<close> m] \<open>i < length s\<close> m nosep True show ?thesis
          unfolding split by (subst IsValidMacAddress_loop.simps) simp
      next
        case False
        then have "\<not> ((0x30 \<le> s ! i \<and> s ! i \<le> 0x39) \<or> (0x41 \<le> s ! i \<and> s ! i \<le> 0x46)
                   \<or> (0x61 \<le> s ! i \<and> s ! i \<le> 0x66))"
          by (simp add: hex_char_range)
        with \<open>i < length s\<close> m nosep False show ?thesis
          unfolding split by (subst IsValidMacAddress_loop.simps) simp
      qed
    qed
  qed
qed

lemma IsValidMacAddress_Success:
  "IsValidMacAddress s = Success \<longleftrightarrow>
     s \<noteq> [] \<and> length s \<le> 18 \<and>
     (\<forall>j < length s. if j \<in> {2, 5, 8, 11, 14} then s ! j = 0x2D else hex_char (s ! j))"
  by (simp add: IsValidMacAddress_def MAC_ADDRESS_LENGTH_def IsValidMacAddress_loop_Success)

lemma IsValidMacAddress_codes:
  "IsValidMacAddress s = Success \<or> IsValidMacAddress s = InvalidMacAddress"
  using IsValidMacAddress_loop_codes[of s 0] by (simp add: IsValidMacAddress_def)

lemma match_groups_Suc:
  "match_groups (Suc n) s \<longleftrightarrow>
     (\<exists>a b rest. s = 0x2D # a # b # rest \<and> hex_char a \<and> hex_char b \<and> match_groups n rest)"
  by (cases "(Suc n, s)" rule: match_groups.cases) auto

lemma mac_format_explicit:
  "mac_format s \<longleftrightarrow>
     (\<exists>a0 a1 b0 b1 c0 c1 d0 d1 e0 e1 f0 f1.
        s = [a0, a1, 0x2D, b0, b1, 0x2D, c0, c1, 0x2D, d0, d1, 0x2D, e0, e1, 0x2D, f0, f1]
        \<and> hex_char a0 \<and> hex_char a1 \<and> hex_char b0 \<and> hex_char b1 \<and> hex_char c0 \<and> hex_char c1
        \<and> hex_char d0 \<and> hex_char d1 \<and> hex_char e0 \<and> hex_char e1 \<and> hex_char f0 \<and> hex_char f1)"
proof -
  have five: "match_groups 5 r \<longleftrightarrow>
     (\<exists>b0 b1 c0 c1 d0 d1 e0 e1 f0 f1.
        r = [0x2D, b0, b1, 0x2D, c0, c1, 0x2D, d0, d1, 0x2D, e0, e1, 0x2D, f0, f1]
        \<and> hex_char b0 \<and> hex_char b1 \<and> hex_char c0 \<and> hex_char c1
        \<and> hex_char d0 \<and> hex_char d1 \<and> hex_char e0 \<and> hex_char e1 \<and> hex_char f0 \<and> hex_char f1)"
    for r
  proof -
    have n5: "(5::nat) = Suc (Suc (Suc (Suc (Suc 0))))" by simp
    show ?thesis unfolding n5 match_groups_Suc match_groups.simps(1) by auto
  qed
  show ?thesis
    unfolding mac_format_def five by (auto split: list.splits)
qed

lemma IsValidMacAddress_format:
  assumes "mac_format s"
  shows "IsValidMacAddress s = Success"
proof -
  from assms obtain a0 a1 b0 b1 c0 c1 d0 d1 e0 e1 f0 f1 where
    s: "s = [a0, a1, 0x2D, b0, b1, 0x2D, c0, c1, 0x2D, d0, d1, 0x2D, e0, e1, 0x2D, f0, f1]"
    and h: "hex_char a0" "hex_char a1" "hex_char b0" "hex_char b1" "hex_char c0" "hex_char c1"
       "hex_char d0" "hex_char d1" "hex_char e0" "hex_char e1" "hex_char f0" "hex_char f1"
    unfolding mac_format_explicit by blast
  have "length s = 17" by (simp add: s)
  moreover have "if j \<in> {2, 5, 8, 11, 14} then s ! j = 0x2D else hex_char (s ! j)"
    if "j < 17" for j
  proof -
    have u: "[0..<17] = [0, 1, 2, 3, 4, 5, 6, 7, 8, 9, 10, 11, 12, 13, 14, 15, 16 :: nat]"
      by code_simp
    have "list_all (\<lambda>j. if j \<in> {2, 5, 8, 11, 14} then s ! j = 0x2D else hex_char (s ! j))
            [0..<17]"
      unfolding u by (simp add: s h)
    moreover from that have "j \<in> set [0..<17]" by simp
    ultimately show ?thesis unfolding list_all_iff by blast
  qed
  ultimately show ?thesis
    by (auto simp: IsValidMacAddress_Success)
qed

text \<open>
  C9: for every enumerator of \<open>WolErrorCode\<close>, \<open>WolErrorCodeToString\<close> returns a
  non-empty string from one of the \<open>case\<close> labels; the code after the \<open>switch\<close>
  (\<open>assert(false)\<close> and the empty string) is not reached.
\<close>

theorem WolErrorCodeToString_exhaustive:
  "\<exists>text. WolErrorCodeToString (enum_value e) = Some text \<and> text \<noteq> []"
  by (cases e) (simp_all add: WolErrorCodeToString_def CONFIG_FILE_NAME_def L_def)

text \<open>
  C8: for a string in the format \<open>XX-XX-XX-XX-XX-XX\<close>, \<open>ParseMacAddress\<close> passes its
  assertions and gives six bytes; byte \<open>i\<close> is the value of the \<open>i\<close>-th two-character
  group, read as a hexadecimal number, in the order the groups are written, and lies
  in \<open>0x00..0xFF\<close>.
\<close>

theorem ParseMacAddress_groups:
  assumes "mac_format s"
  shows "\<exists>mac. ParseMacAddress s = Some mac \<and> length mac = 6
           \<and> map unat mac = group_values s
           \<and> (\<forall>i < 6. unat (mac ! i)
                 = 16 * hex_value_of (s ! (3 * i)) + hex_value_of (s ! (3 * i + 1))
               \<and> unat (mac ! i) \<le> 255)"
proof -
  from ParseMacAddress_unat[OF assms] obtain mac where
    m: "ParseMacAddress s = Some mac" "length mac = 6" "map unat mac = group_values s"
    by blast
  have "unat (mac ! i) = 16 * hex_value_of (s ! (3 * i)) + hex_value_of (s ! (3 * i + 1))
        \<and> unat (mac ! i) \<le> 255" if "i < 6" for i
  proof -
    from that m have i: "i < length (group_values s)" by (metis length_map)
    have "unat (mac ! i) = map unat mac ! i" using that m(2) by simp
    also have "\<dots> = group_values s ! i" by (simp only: m(3))
    finally have u: "unat (mac ! i) = group_values s ! i" .
    have "group_values s ! i < 256" using i by (intro group_values_bound[of _ s] nth_mem)
    with u group_values_nth[OF i] show ?thesis by simp
  qed
  with m show ?thesis by blast
qed

theorem ParseMacAddress_groups_witness:
  "mac_format (L ''A0-36-BC-BB-EB-CC'')
   \<and> (\<exists>mac. ParseMacAddress (L ''A0-36-BC-BB-EB-CC'') = Some mac \<and> length mac = 6
           \<and> map unat mac = group_values (L ''A0-36-BC-BB-EB-CC'')
           \<and> (\<forall>i < 6. unat (mac ! i)
                 = 16 * hex_value_of (L ''A0-36-BC-BB-EB-CC'' ! (3 * i))
                   + hex_value_of (L ''A0-36-BC-BB-EB-CC'' ! (3 * i + 1))
               \<and> unat (mac ! i) \<le> 255))
   \<and> ParseMacAddress (L ''A0-36-BC-BB-EB-CC'') = Some [0xA0, 0x36, 0xBC, 0xBB, 0xEB, 0xCC]"
proof -
  have h: "mac_format (L ''A0-36-BC-BB-EB-CC'')" by code_simp
  have v: "ParseMacAddress (L ''A0-36-BC-BB-EB-CC'') = Some [0xA0, 0x36, 0xBC, 0xBB, 0xEB, 0xCC]"
    by code_simp
  from h v ParseMacAddress_groups[OF h] show ?thesis by blast
qed

text \<open>
  C1: for a string in the format \<open>XX-XX-XX-XX-XX-XX\<close>, the packet built from the
  parsed address has exactly 102 bytes: the bytes at 0..5 are \<open>0xFF\<close>, and for every
  \<open>k\<close> in 0..15 the bytes at \<open>6 + 6k .. 11 + 6k\<close> are the six parsed bytes; the packet
  is the header followed by the 16 copies and nothing else.
\<close>

theorem CreateMagicPacket_layout:
  assumes "mac_format s" and "length packet = 102"
  shows "\<exists>mac. ParseMacAddress s = Some mac \<and> length mac = 6
           \<and> length (CreateMagicPacket mac packet) = 102
           \<and> (\<forall>i < 6. CreateMagicPacket mac packet ! i = 0xFF)
           \<and> (\<forall>k < 16. \<forall>i < 6. CreateMagicPacket mac packet ! (6 + 6 * k + i) = mac ! i)
           \<and> CreateMagicPacket mac packet = replicate 6 0xFF @ concat (replicate 16 mac)"
proof -
  from ParseMacAddress_unat[OF assms(1)] obtain mac where
    m: "ParseMacAddress s = Some mac" "length mac = 6"
    by blast
  have len: "length (CreateMagicPacket mac packet) = 102"
    using assms(2) by (simp add: CreateMagicPacket_length)
  have hdr: "CreateMagicPacket mac packet ! i = 0xFF" if "i < 6" for i
    using that assms(2) m(2) by (simp add: CreateMagicPacket_nth)
  have rep: "CreateMagicPacket mac packet ! (6 + 6 * k + i) = mac ! i" if "k < 16" "i < 6" for k i
  proof -
    have "6 + 6 * k + i < 102" using that by arith
    moreover have "(6 * k + i) mod 6 = i" using that by simp
    ultimately show ?thesis using assms(2) m(2) by (simp add: CreateMagicPacket_nth)
  qed
  from m len hdr rep CreateMagicPacket_concat[OF m(2) assms(2)] show ?thesis by blast
qed

theorem CreateMagicPacket_layout_witness:
  "mac_format (L ''A0-36-BC-BB-EB-CC'') \<and> length (replicate 102 (0 :: byte)) = 102
   \<and> (\<exists>mac. ParseMacAddress (L ''A0-36-BC-BB-EB-CC'') = Some mac \<and> length mac = 6
           \<and> length (CreateMagicPacket mac (replicate 102 0)) = 102
           \<and> (\<forall>i < 6. CreateMagicPacket mac (replicate 102 0) ! i = 0xFF)
           \<and> (\<forall>k < 16. \<forall>i < 6.
                 CreateMagicPacket mac (replicate 102 0) ! (6 + 6 * k + i) = mac ! i)
           \<and> CreateMagicPacket mac (replicate 102 0)
               = replicate 6 0xFF @ concat (replicate 16 mac))"
proof -
  have h: "mac_format (L ''A0-36-BC-BB-EB-CC'')" by code_simp
  have l: "length (replicate 102 (0 :: byte)) = 102" by simp
  from h l CreateMagicPacket_layout[OF h l] show ?thesis by blast
qed

text \<open>
  C2: \<open>IsValidMacAddress\<close> accepts strings that do not match
  \<open>^[0-9A-Fa-f]{2}(-[0-9A-Fa-f]{2}){5}$\<close>: the length is only tested against 18 from
  above, so the two characters \<open>00\<close> pass, and so does an 18-character string; for
  \<open>00\<close> the assertion \<open>scanResult == 6\<close> of \<open>ParseMacAddress\<close> then fails.
\<close>

theorem IsValidMacAddress_accepts_unformatted:
  "\<not> mac_format (L ''00'') \<and> IsValidMacAddress (L ''00'') = Success
   \<and> ParseMacAddress (L ''00'') = None
   \<and> length (L ''00-11-22-AA-BB-CC0'') = 18
   \<and> \<not> mac_format (L ''00-11-22-AA-BB-CC0'')
   \<and> IsValidMacAddress (L ''00-11-22-AA-BB-CC0'') = Success"
  by code_simp

section \<open>Properties of the validation of the broadcast address\<close>

declare IsValidBroadcastIpAddress_loop.simps [simp del]
declare dec_string.simps [simp del]

lemma iswdigit_not_special:
  assumes "iswdigit ch"
  shows "\<not> iswspace ch" "ch \<noteq> 0x2D" "ch \<noteq> 0x2B" "ch \<noteq> 0" "ch \<noteq> 0x2E"
  using assms by (auto simp: iswdigit_def iswspace_def word_le_nat_alt)

lemma IsValidateIpOctet_digits_iff: "IsValidateIpOctet_digits s \<longleftrightarrow> list_all iswdigit s"
  by (induction s) simp_all

lemma scan_dec_digits_all:
  "list_all iswdigit s \<Longrightarrow>
     scan_dec_digits acc s = (foldl (\<lambda>acc ch. acc * 10 + (unat ch - 0x30)) acc s, [])"
  by (induction s arbitrary: acc) simp_all

lemma c_str_digits: "list_all iswdigit s \<Longrightarrow> c_str s = s"
  unfolding c_str_def
  by (rule takeWhile_eq_all_conv[THEN iffD2]) (auto simp: list_all_iff dest: iswdigit_not_special(4))

lemma strto_subject_digits:
  assumes "list_all iswdigit s" "s \<noteq> []"
  shows "strto_subject s = Subject False (octet_value s) (length s)"
proof -
  from assms obtain d r where s: "s = d # r" by (cases s) auto
  with assms have d: "iswdigit d" by simp
  note n = iswdigit_not_special[OF d]
  have "dropWhile iswspace s = s" using n(1) by (simp add: s)
  then show ?thesis
    using n d scan_dec_digits_all[OF assms(1), of 0]
    by (simp add: strto_subject_def octet_value_def s del: scan_dec_digits.simps foldl_Cons)
qed

lemma foldl_digits_bound:
  "list_all iswdigit s \<Longrightarrow>
     foldl (\<lambda>acc ch. acc * 10 + (unat ch - 0x30)) acc s < (acc + 1) * 10 ^ length s"
proof (induction s arbitrary: acc)
  case Nil
  then show ?case by simp
next
  case (Cons ch s)
  then have "iswdigit ch" by simp
  then have "unat ch \<le> 57"
    by (simp add: iswdigit_def word_le_nat_alt)
  then have "unat ch - 0x30 \<le> 9"
    by arith
  then have "(acc * 10 + (unat ch - 0x30) + 1) * 10 ^ length s \<le> ((acc + 1) * 10) * 10 ^ length s"
    by (intro mult_right_mono) simp_all
  also have "\<dots> = (acc + 1) * 10 ^ length (ch # s)"
    by (simp add: algebra_simps)
  finally have le: "(acc * 10 + (unat ch - 0x30) + 1) * 10 ^ length s
      \<le> (acc + 1) * 10 ^ length (ch # s)" .
  from Cons have
    "foldl (\<lambda>acc ch. acc * 10 + (unat ch - 0x30)) (acc * 10 + (unat ch - 0x30)) s
       < (acc * 10 + (unat ch - 0x30) + 1) * 10 ^ length s"
    by simp
  from less_le_trans[OF this le] show ?case
    by (simp only: foldl_Cons)
qed

lemma octet_value_bound:
  assumes "list_all iswdigit s" "length s \<le> 3"
  shows "octet_value s < 1000"
proof -
  have "octet_value s < 10 ^ length s"
    using foldl_digits_bound[OF assms(1), of 0] by (simp add: octet_value_def)
  also have "\<dots> \<le> (10::nat) ^ 3" using assms(2) by (intro power_increasing) simp_all
  finally show ?thesis by simp
qed

lemma wcstol_digits:
  assumes "list_all iswdigit s" "s \<noteq> []" "length s \<le> 3"
  shows "wcstol s = (int (octet_value s), length s, False)"
  using octet_value_bound[OF assms(1,3)]
  by (simp add: wcstol_def strto_subject_digits[OF assms(1,2)])

lemma IsValidateIpOctet_Success: "IsValidateIpOctet s = Success \<longleftrightarrow> octet_rule s"
proof (cases "s \<noteq> [] \<and> length s \<le> 3 \<and> list_all iswdigit s")
  case True
  then have w: "wcstol s = (int (octet_value s), length s, False)" and cs: "c_str s = s"
    by (simp_all add: c_str_digits wcstol_digits)
  from True have h: "hd s = s ! 0" by (simp add: hd_conv_nth)
  from True have l: "1 \<le> length s" by (cases s) simp_all
  show ?thesis
    using True l
    by (auto simp: IsValidateIpOctet_def octet_rule_def IsValidateIpOctet_digits_iff w h cs)
next
  case False
  then show ?thesis
    by (auto simp: IsValidateIpOctet_def octet_rule_def IsValidateIpOctet_digits_iff)
qed

lemma IsValidateIpOctet_codes:
  "IsValidateIpOctet s = Success \<or> IsValidateIpOctet s = InvalidBroadcastIp"
  by (simp add: IsValidateIpOctet_def split: prod.splits)

lemma IsValidateIpOctet_fail:
  "IsValidateIpOctet s \<noteq> Success \<Longrightarrow> IsValidateIpOctet s = InvalidBroadcastIp"
  using IsValidateIpOctet_codes[of s] by blast

text \<open>The loop over indices and the recursion over the unread characters agree.\<close>

lemma IsValidBroadcastIpAddress_loop_scan:
  "start \<le> i \<Longrightarrow> i \<le> length ip \<Longrightarrow>
     IsValidBroadcastIpAddress_loop ip i start dotCount
       = ip_scan (take (i - start) (drop start ip)) (drop i ip) dotCount"
proof (induction ip i start dotCount rule: IsValidBroadcastIpAddress_loop.induct)
  case (1 ip i start dotCount)
  have sub: "substr ip start (i - start) = Some (take (i - start) (drop start ip))"
    using 1(3,4) by (simp add: substr_def)
  show ?case
  proof (cases "i = length ip")
    case True
    have after: "IsValidBroadcastIpAddress_loop ip (i + 1) (i + 1) dotCount
        = (if dotCount \<noteq> 3 then InvalidBroadcastIp else Success)"
      using True by (subst IsValidBroadcastIpAddress_loop.simps) simp
    show ?thesis
      using True sub after
      by (subst IsValidBroadcastIpAddress_loop.simps) simp
  next
    case False
    with 1(4) have lt: "i < length ip" by simp
    then have dr: "drop i ip = ip ! i # drop (i + 1) ip"
      by (simp add: Cons_nth_drop_Suc)
    show ?thesis
    proof (cases "ip ! i = 0x2E")
      case True
      have c: "i = length ip \<or> ip ! i = 0x2E" using True by simp
      show ?thesis
      proof (cases "IsValidateIpOctet (take (i - start) (drop start ip)) \<noteq> Success
                    \<or> dotCount + 1 > 3")
        case True
        then show ?thesis
          using lt \<open>ip ! i = 0x2E\<close> sub dr
          by (subst IsValidBroadcastIpAddress_loop.simps) auto
      next
        case ok: False
        have "IsValidBroadcastIpAddress_loop ip (i + 1) (i + 1) (dotCount + 1)
            = ip_scan (take (i + 1 - (i + 1)) (drop (i + 1) ip)) (drop (i + 1) ip) (dotCount + 1)"
          using 1(1)[OF _ c sub] ok lt by simp
        then show ?thesis
          using lt \<open>ip ! i = 0x2E\<close> sub dr ok
          by (subst IsValidBroadcastIpAddress_loop.simps) simp
      qed
    next
      case nodot: False
      have c: "\<not> (i = length ip \<or> ip ! i = 0x2E)" using nodot lt by simp
      have t: "take (i + 1 - start) (drop start ip) = take (i - start) (drop start ip) @ [ip ! i]"
      proof -
        have "i + 1 - start = Suc (i - start)" using 1(3) by simp
        moreover have "i - start < length (drop start ip)" using lt 1(3) by simp
        moreover have "drop start ip ! (i - start) = ip ! i" using lt 1(3) by simp
        ultimately show ?thesis by (simp add: take_Suc_conv_app_nth)
      qed
      have "IsValidBroadcastIpAddress_loop ip (i + 1) start dotCount
          = ip_scan (take (i + 1 - start) (drop start ip)) (drop (i + 1) ip) dotCount"
        using 1(2)[OF _ c] 1(3) lt by simp
      then show ?thesis
        using lt nodot dr t
        by (subst IsValidBroadcastIpAddress_loop.simps) simp
    qed
  qed
qed

lemma IsValidBroadcastIpAddress_scan:
  "IsValidBroadcastIpAddress s = ip_scan [] s 0"
  using IsValidBroadcastIpAddress_loop_scan[of 0 0 s 0]
  by (simp add: IsValidBroadcastIpAddress_def)

lemma ip_scan_codes:
  "ip_scan octet s dotCount = Success \<or> ip_scan octet s dotCount = InvalidBroadcastIp"
  by (induction s arbitrary: octet dotCount) (auto dest: IsValidateIpOctet_fail)

lemma split_dots_not_Nil: "split_dots s \<noteq> []"
  by (induction s) simp_all

lemma ip_scan_split:
  "ip_scan octet s dotCount = Success \<longleftrightarrow>
     IsValidateIpOctet (octet @ hd (split_dots s)) = Success
     \<and> list_all (\<lambda>seg. IsValidateIpOctet seg = Success) (tl (split_dots s))
     \<and> dotCount + length (split_dots s) = 4"
proof (induction s arbitrary: octet dotCount)
  case Nil
  then show ?case by auto
next
  case (Cons ch s)
  have n: "split_dots s = hd (split_dots s) # tl (split_dots s)"
    using split_dots_not_Nil[of s] by simp
  have len: "1 \<le> length (split_dots s)"
    using split_dots_not_Nil[of s] by (cases "split_dots s") simp_all
  show ?case
  proof (cases "ch = 0x2E")
    case True
    have "list_all (\<lambda>seg. IsValidateIpOctet seg = Success) (split_dots s)
        \<longleftrightarrow> IsValidateIpOctet (hd (split_dots s)) = Success
          \<and> list_all (\<lambda>seg. IsValidateIpOctet seg = Success) (tl (split_dots s))"
      by (subst n) simp
    then show ?thesis
      using True len Cons[of "[]" "dotCount + 1"] by auto
  next
    case False
    then show ?thesis
      using len Cons[of "octet @ [ch]" dotCount] by auto
  qed
qed

lemma length_split_dots: "length (split_dots s) = Suc (length (filter (\<lambda>ch. ch = 0x2E) s))"
proof (induction s)
  case Nil
  then show ?case by simp
next
  case (Cons ch s)
  have "length (tl (split_dots s)) = length (filter (\<lambda>ch. ch = 0x2E) s)"
    using Cons by simp
  with Cons show ?case by simp
qed

lemma IsValidBroadcastIpAddress_Success:
  "IsValidBroadcastIpAddress s = Success \<longleftrightarrow>
     length (filter (\<lambda>ch. ch = 0x2E) s) = 3 \<and> list_all octet_rule (split_dots s)"
proof -
  have n: "split_dots s = hd (split_dots s) # tl (split_dots s)"
    using split_dots_not_Nil[of s] by simp
  have "list_all octet_rule (split_dots s)
      \<longleftrightarrow> octet_rule (hd (split_dots s)) \<and> list_all octet_rule (tl (split_dots s))"
    by (subst n) simp
  then show ?thesis
    unfolding IsValidBroadcastIpAddress_scan ip_scan_split
    by (auto simp: IsValidateIpOctet_Success length_split_dots)
qed

lemma IsValidBroadcastIpAddress_codes:
  "IsValidBroadcastIpAddress s = Success \<or> IsValidBroadcastIpAddress s = InvalidBroadcastIp"
  unfolding IsValidBroadcastIpAddress_scan by (rule ip_scan_codes)

lemma digit_char_props:
  assumes "d < 10"
  shows "iswdigit (digit_char d)" "unat (digit_char d) - 0x30 = d" "digit_char d \<noteq> 0x2E"
    "(digit_char d = 0x30) = (d = 0)"
proof -
  have u: "unat (digit_char d) = 0x30 + d"
    unfolding digit_char_def unat_of_nat using assms by simp
  show "iswdigit (digit_char d)"
    using assms by (simp add: iswdigit_def word_le_nat_alt u)
  show "unat (digit_char d) - 0x30 = d"
    by (simp add: u)
  show "digit_char d \<noteq> 0x2E"
    using assms u by (auto simp: word_unat_eq_iff)
  show "(digit_char d = 0x30) = (d = 0)"
    using u by (auto simp: word_unat_eq_iff)
qed

lemma dec_string_cases:
  "n < 10 \<Longrightarrow> dec_string n = [digit_char n]"
  "10 \<le> n \<Longrightarrow> n < 100 \<Longrightarrow> dec_string n = [digit_char (n div 10), digit_char (n mod 10)]"
  "100 \<le> n \<Longrightarrow> n < 1000 \<Longrightarrow>
     dec_string n = [digit_char (n div 100), digit_char (n div 10 mod 10), digit_char (n mod 10)]"
proof -
  show one: "dec_string n = [digit_char n]" if "n < 10" for n
    using that by (subst dec_string.simps) simp
  show two: "dec_string n = [digit_char (n div 10), digit_char (n mod 10)]"
    if "10 \<le> n" "n < 100" for n
  proof -
    from that have "n div 10 < 10" by simp
    from one[OF this] that show ?thesis by (subst dec_string.simps) simp
  qed
  show "dec_string n = [digit_char (n div 100), digit_char (n div 10 mod 10), digit_char (n mod 10)]"
    if "100 \<le> n" "n < 1000"
  proof -
    from that have "10 \<le> n div 10" "n div 10 < 100" by simp_all
    from two[OF this] that show ?thesis
      by (subst dec_string.simps) (simp add: div_mult2_eq[symmetric])
  qed
qed

lemma dec_string_octet:
  assumes "n \<le> 255"
  shows "octet_rule (dec_string n)" "octet_value (dec_string n) = n" "0x2E \<notin> set (dec_string n)"
proof -
  consider "n < 10" | "10 \<le> n" "n < 100" | "100 \<le> n" "n < 1000"
    using assms by linarith
  then have "octet_rule (dec_string n) \<and> octet_value (dec_string n) = n
      \<and> 0x2E \<notin> set (dec_string n)"
  proof cases
    case 1
    note p = digit_char_props[OF 1]
    show ?thesis
      using p assms by (simp add: dec_string_cases(1)[OF 1] octet_rule_def octet_value_def)
  next
    case 2
    have a: "n div 10 < 10" "n mod 10 < 10" "n div 10 \<noteq> 0" using 2 by simp_all
    note p = digit_char_props[OF a(1)] and q = digit_char_props[OF a(2)]
    have "n div 10 * 10 + n mod 10 = n" by simp
    then show ?thesis
      using p q a(3) assms
      by (simp add: dec_string_cases(2)[OF 2] octet_rule_def octet_value_def)
  next
    case 3
    have a: "n div 100 < 10" "n div 10 mod 10 < 10" "n mod 10 < 10" "n div 100 \<noteq> 0"
      using 3 by simp_all
    note p = digit_char_props[OF a(1)] and q = digit_char_props[OF a(2)]
      and r = digit_char_props[OF a(3)]
    have "n div 10 div 10 = n div 100" by (simp add: div_mult2_eq[symmetric])
    then have "(n div 100 * 10 + n div 10 mod 10) * 10 + n mod 10 = n"
      by (metis div_mult_mod_eq)
    then show ?thesis
      using p q r a(4) assms
      by (simp add: dec_string_cases(3)[OF 3] octet_rule_def octet_value_def)
  qed
  then show "octet_rule (dec_string n)" "octet_value (dec_string n) = n"
    "0x2E \<notin> set (dec_string n)"
    by simp_all
qed

lemma split_dots_nodot: "0x2E \<notin> set a \<Longrightarrow> split_dots a = [a]"
  by (induction a) simp_all

lemma split_dots_append:
  "0x2E \<notin> set a \<Longrightarrow> split_dots (a @ 0x2E # rest) = a # split_dots rest"
  by (induction a) simp_all

lemma split_dots_ipv4_string:
  assumes "a \<le> 255" "b \<le> 255" "c \<le> 255" "d \<le> 255"
  shows "split_dots (ipv4_string a b c d) = [dec_string a, dec_string b, dec_string c, dec_string d]"
  using assms
  by (simp add: ipv4_string_def split_dots_append split_dots_nodot dec_string_octet(3))

lemma IsValidBroadcastIpAddress_canonical:
  assumes "a \<le> 255" "b \<le> 255" "c \<le> 255" "d \<le> 255"
  shows "IsValidBroadcastIpAddress (ipv4_string a b c d) = Success"
proof -
  have "length (split_dots (ipv4_string a b c d)) = 4"
    by (simp add: split_dots_ipv4_string[OF assms])
  then have "length (filter (\<lambda>ch. ch = 0x2E) (ipv4_string a b c d)) = 3"
    by (simp add: length_split_dots)
  then show ?thesis
    using assms
    by (simp add: IsValidBroadcastIpAddress_Success split_dots_ipv4_string dec_string_octet(1))
qed

text \<open>
  C3: the canonical dotted text of four numbers in \<open>0..255\<close> (decimal, no leading
  zeros) passes \<open>IsValidBroadcastIpAddress\<close>. A string passes exactly when it has three
  dots and every segment between the dots obeys the octet rule (1 to 3 decimal
  digits, value at most 255, no leading zero on more than one digit); so a string with
  a segment that is empty, above 255 or with a leading zero fails, and a string with
  another number of dots than three fails.
\<close>

theorem IsValidBroadcastIpAddress_octets:
  "(a \<le> 255 \<and> b \<le> 255 \<and> c \<le> 255 \<and> d \<le> 255
      \<longrightarrow> IsValidBroadcastIpAddress (ipv4_string a b c d) = Success)
   \<and> (IsValidBroadcastIpAddress s = Success
        \<longleftrightarrow> length (filter (\<lambda>ch. ch = 0x2E) s) = 3 \<and> list_all octet_rule (split_dots s))
   \<and> (octet \<in> set (split_dots s1)
        \<and> (octet = [] \<or> octet_value octet > 255 \<or> (length octet > 1 \<and> hd octet = 0x30))
      \<longrightarrow> IsValidBroadcastIpAddress s1 \<noteq> Success)
   \<and> (length (filter (\<lambda>ch. ch = 0x2E) s2) \<noteq> 3 \<longrightarrow> IsValidBroadcastIpAddress s2 \<noteq> Success)"
proof (intro conjI impI)
  assume "a \<le> 255 \<and> b \<le> 255 \<and> c \<le> 255 \<and> d \<le> 255"
  then show "IsValidBroadcastIpAddress (ipv4_string a b c d) = Success"
    by (simp add: IsValidBroadcastIpAddress_canonical)
next
  show "IsValidBroadcastIpAddress s = Success
        \<longleftrightarrow> length (filter (\<lambda>ch. ch = 0x2E) s) = 3 \<and> list_all octet_rule (split_dots s)"
    by (rule IsValidBroadcastIpAddress_Success)
next
  assume h: "octet \<in> set (split_dots s1)
        \<and> (octet = [] \<or> octet_value octet > 255 \<or> (length octet > 1 \<and> hd octet = 0x30))"
  then have "\<not> octet_rule octet" by (auto simp: octet_rule_def)
  with h have "\<not> list_all octet_rule (split_dots s1)" by (auto simp: list_all_iff)
  then show "IsValidBroadcastIpAddress s1 \<noteq> Success"
    by (simp add: IsValidBroadcastIpAddress_Success)
next
  assume "length (filter (\<lambda>ch. ch = 0x2E) s2) \<noteq> 3"
  then show "IsValidBroadcastIpAddress s2 \<noteq> Success"
    by (simp add: IsValidBroadcastIpAddress_Success)
qed

theorem IsValidBroadcastIpAddress_octets_witness:
  "ipv4_string 192 168 0 255 = L ''192.168.0.255''
   \<and> IsValidBroadcastIpAddress (L ''192.168.0.255'') = Success
   \<and> length (filter (\<lambda>ch. ch = 0x2E) (L ''192.168.0.255'')) = 3
   \<and> list_all octet_rule (split_dots (L ''192.168.0.255''))
   \<and> L ''256'' \<in> set (split_dots (L ''192.168.0.256'')) \<and> octet_value (L ''256'') > 255
   \<and> IsValidBroadcastIpAddress (L ''192.168.0.256'') \<noteq> Success
   \<and> L ''00'' \<in> set (split_dots (L ''192.168.00.255'')) \<and> hd (L ''00'') = 0x30
   \<and> IsValidBroadcastIpAddress (L ''192.168.00.255'') \<noteq> Success
   \<and> [] \<in> set (split_dots (L ''192..0.255''))
   \<and> IsValidBroadcastIpAddress (L ''192..0.255'') \<noteq> Success
   \<and> length (filter (\<lambda>ch. ch = 0x2E) (L ''192.168.0'')) = 2
   \<and> IsValidBroadcastIpAddress (L ''192.168.0'') \<noteq> Success"
proof -
  have e: "ipv4_string 192 168 0 255 = L ''192.168.0.255''"
    by code_simp
  have n: "(192::nat) \<le> 255 \<and> (168::nat) \<le> 255 \<and> (0::nat) \<le> 255 \<and> (255::nat) \<le> 255"
    by simp
  have p1: "IsValidBroadcastIpAddress (L ''192.168.0.255'') = Success"
    using IsValidBroadcastIpAddress_octets[of 192 168 0 255] n unfolding e by blast
  have p2: "length (filter (\<lambda>ch. ch = 0x2E) (L ''192.168.0.255'')) = 3
      \<and> list_all octet_rule (split_dots (L ''192.168.0.255''))"
    using IsValidBroadcastIpAddress_octets[of _ _ _ _ "L ''192.168.0.255''"] p1 by blast
  have h3: "L ''256'' \<in> set (split_dots (L ''192.168.0.256''))" "octet_value (L ''256'') > 255"
    by code_simp+
  have p3: "IsValidBroadcastIpAddress (L ''192.168.0.256'') \<noteq> Success"
    using IsValidBroadcastIpAddress_octets[of _ _ _ _ _ "L ''256''" "L ''192.168.0.256''"] h3
    by blast
  have h4: "L ''00'' \<in> set (split_dots (L ''192.168.00.255''))" "hd (L ''00'') = 0x30"
    "length (L ''00'') > 1"
    by code_simp+
  have p4: "IsValidBroadcastIpAddress (L ''192.168.00.255'') \<noteq> Success"
    using IsValidBroadcastIpAddress_octets[of _ _ _ _ _ "L ''00''" "L ''192.168.00.255''"] h4
    by blast
  have h5: "[] \<in> set (split_dots (L ''192..0.255''))"
    by code_simp
  have p5: "IsValidBroadcastIpAddress (L ''192..0.255'') \<noteq> Success"
    using IsValidBroadcastIpAddress_octets[of _ _ _ _ _ "[]" "L ''192..0.255''"] h5
    by blast
  have h6: "length (filter (\<lambda>ch. ch = 0x2E) (L ''192.168.0'')) = 2"
    by code_simp
  have p6: "IsValidBroadcastIpAddress (L ''192.168.0'') \<noteq> Success"
    using IsValidBroadcastIpAddress_octets[of _ _ _ _ _ _ _ "L ''192.168.0''"] h6
    by simp
  from e p1 p2 h3 p3 h4(1,2) p4 h5 p5 h6 p6 show ?thesis by blast
qed

section \<open>Properties of loading the configuration\<close>

lemma c_str_no_nul: "0 \<notin> set s \<Longrightarrow> c_str s = s"
  unfolding c_str_def by (rule takeWhile_eq_all_conv[THEN iffD2]) auto

lemma GetPrivateProfileStringW_short:
  "length v \<le> 255 \<Longrightarrow> GetPrivateProfileStringW (Some v) dflt MAX_BUFFER_SIZE = (length v, v)"
  by (simp add: GetPrivateProfileStringW_def MAX_BUFFER_SIZE_def)

lemma GetConfigFilePath_config_file: "GetConfigFilePath (config_file mac ip port) = Success"
  by (simp add: GetConfigFilePath_def config_file_def MAX_PATH_LENGTH_def L_def)

lemma GetConfigFilePath_codes:
  "GetConfigFilePath env \<in>
     {Success, FailedToGetExecutionPath, InvalidExecutionPath, UnexpectedException}"
  by (simp add: GetConfigFilePath_def split: option.splits)

lemma IsConfigurationValid_codes:
  "IsConfigurationValid config \<in> {Success, InvalidMacAddress, InvalidBroadcastIp}"
  using IsValidMacAddress_codes[of "mMacAddress config"]
    IsValidBroadcastIpAddress_codes[of "mBroadcastIp config"]
  by (auto simp: IsConfigurationValid_def)

text \<open>
  \<open>LoadFromIni\<close> on a configuration file with a valid MAC address and broadcast
  address: the outcome is decided by what \<open>wcstoul\<close> makes of the port text.
\<close>

lemma LoadFromIni_config_file:
  assumes "IsValidMacAddress mac = Success" "IsValidBroadcastIpAddress ip = Success"
    and "0 \<notin> set mac" "0 \<notin> set ip" "0 \<notin> set port"
    and "length mac \<le> 255" "length ip \<le> 255" "length port \<le> 255"
    and "mac \<noteq> []" "ip \<noteq> []" "port \<noteq> []"
    and "wcstoul port = (p, e, r)"
  shows "LoadFromIni (config_file mac ip port) config =
    (if r then (InvalidPort, config\<lparr>mMacAddress := mac, mBroadcastIp := ip\<rparr>)
     else if e = 0 \<or> e < length port
     then (InvalidPort, config\<lparr>mMacAddress := mac, mBroadcastIp := ip\<rparr>)
     else if p = 0 \<or> p > 65535
     then (InvalidPort, config\<lparr>mMacAddress := mac, mBroadcastIp := ip\<rparr>)
     else (Success, config\<lparr>mMacAddress := mac, mBroadcastIp := ip, mPort := ucast p\<rparr>))"
proof -
  have g: "GetPrivateProfileStringW (ini_MacAddress (config_file mac ip port)) [] MAX_BUFFER_SIZE
            = (length mac, mac)"
      "GetPrivateProfileStringW (ini_BroadcastIp (config_file mac ip port))
            (L ''255.255.255.255'') MAX_BUFFER_SIZE = (length ip, ip)"
      "GetPrivateProfileStringW (ini_Port (config_file mac ip port)) [] MAX_BUFFER_SIZE
            = (length port, port)"
    using assms(6-8) by (simp_all add: config_file_def GetPrivateProfileStringW_short)
  have e: "config_file_exists (config_file mac ip port)"
    by (simp add: config_file_def)
  have v: "IsConfigurationValid (config\<lparr>mMacAddress := mac, mBroadcastIp := ip, mPort := q\<rparr>)
            = Success" for q
    using assms(1,2) by (simp add: IsConfigurationValid_def)
  show ?thesis
    unfolding LoadFromIni_def GetConfigFilePath_config_file g
    using e assms(9-12) v
    by (simp add: c_str_no_nul[OF assms(3)] c_str_no_nul[OF assms(4)] c_str_no_nul[OF assms(5)]
          Let_def)
qed

lemma wcstoul_examples:
  "wcstoul (L ''9'') = (9, 1, False)"
  "wcstoul (L ''0'') = (0, 1, False)"
  "wcstoul (L ''65535'') = (65535, 5, False)"
  "wcstoul (L ''65536'') = (65536, 5, False)"
  "wcstoul (L ''9abc'') = (9, 1, False)"
  "wcstoul (L ''abc'') = (0, 0, False)"
  "wcstoul (L ''+9'') = (9, 2, False)"
  "wcstoul (L '' 9'') = (9, 2, False)"
  "wcstoul (L ''-4294967287'') = (9, 11, False)"
  by (simp_all add: wcstoul_def strto_subject_def L_def iswspace_def iswdigit_def)

lemma valid_examples:
  "IsValidMacAddress (L ''00-11-22-AA-BB-CC'') = Success"
  "IsValidBroadcastIpAddress (L ''192.168.0.255'') = Success"
  "IsValidMacAddress (L ''zz'') = InvalidMacAddress"
  by code_simp+

lemma LoadFromIni_port_examples:
  "LoadFromIni (config_file (L ''00-11-22-AA-BB-CC'') (L ''192.168.0.255'') (L ''9'')) WolConfig_init
     = (Success, \<lparr>mMacAddress = L ''00-11-22-AA-BB-CC'', mBroadcastIp = L ''192.168.0.255'', mPort = 9\<rparr>)"
  "LoadFromIni (config_file (L ''00-11-22-AA-BB-CC'') (L ''192.168.0.255'') (L ''0'')) WolConfig_init
     = (InvalidPort, \<lparr>mMacAddress = L ''00-11-22-AA-BB-CC'', mBroadcastIp = L ''192.168.0.255'', mPort = 0\<rparr>)"
  "LoadFromIni (config_file (L ''00-11-22-AA-BB-CC'') (L ''192.168.0.255'') (L ''65535'')) WolConfig_init
     = (Success, \<lparr>mMacAddress = L ''00-11-22-AA-BB-CC'', mBroadcastIp = L ''192.168.0.255'', mPort = 65535\<rparr>)"
  "LoadFromIni (config_file (L ''00-11-22-AA-BB-CC'') (L ''192.168.0.255'') (L ''65536'')) WolConfig_init
     = (InvalidPort, \<lparr>mMacAddress = L ''00-11-22-AA-BB-CC'', mBroadcastIp = L ''192.168.0.255'', mPort = 0\<rparr>)"
  "LoadFromIni (config_file (L ''00-11-22-AA-BB-CC'') (L ''192.168.0.255'') (L ''9abc'')) WolConfig_init
     = (InvalidPort, \<lparr>mMacAddress = L ''00-11-22-AA-BB-CC'', mBroadcastIp = L ''192.168.0.255'', mPort = 0\<rparr>)"
  "LoadFromIni (config_file (L ''00-11-22-AA-BB-CC'') (L ''192.168.0.255'') (L ''abc'')) WolConfig_init
     = (InvalidPort, \<lparr>mMacAddress = L ''00-11-22-AA-BB-CC'', mBroadcastIp = L ''192.168.0.255'', mPort = 0\<rparr>)"
  "LoadFromIni (config_file (L ''00-11-22-AA-BB-CC'') (L ''192.168.0.255'') (L ''+9'')) WolConfig_init
     = (Success, \<lparr>mMacAddress = L ''00-11-22-AA-BB-CC'', mBroadcastIp = L ''192.168.0.255'', mPort = 9\<rparr>)"
  "LoadFromIni (config_file (L ''00-11-22-AA-BB-CC'') (L ''192.168.0.255'') (L '' 9'')) WolConfig_init
     = (Success, \<lparr>mMacAddress = L ''00-11-22-AA-BB-CC'', mBroadcastIp = L ''192.168.0.255'', mPort = 9\<rparr>)"
  "LoadFromIni (config_file (L ''00-11-22-AA-BB-CC'') (L ''192.168.0.255'') (L ''-4294967287'')) WolConfig_init
     = (Success, \<lparr>mMacAddress = L ''00-11-22-AA-BB-CC'', mBroadcastIp = L ''192.168.0.255'', mPort = 9\<rparr>)"
proof -
  have n: "0 \<notin> set (L ''00-11-22-AA-BB-CC'')" "0 \<notin> set (L ''192.168.0.255'')"
    "length (L ''00-11-22-AA-BB-CC'') \<le> 255" "length (L ''192.168.0.255'') \<le> 255"
    "L ''00-11-22-AA-BB-CC'' \<noteq> []" "L ''192.168.0.255'' \<noteq> []"
    by (simp_all add: L_def)
  note l = LoadFromIni_config_file[OF valid_examples(1,2) n(1,2) _ n(3,4) _ n(5,6)]
  show "LoadFromIni (config_file (L ''00-11-22-AA-BB-CC'') (L ''192.168.0.255'') (L ''9'')) WolConfig_init
     = (Success, \<lparr>mMacAddress = L ''00-11-22-AA-BB-CC'', mBroadcastIp = L ''192.168.0.255'', mPort = 9\<rparr>)"
    by (subst l[OF _ _ _ wcstoul_examples(1)]) (simp_all add: L_def WolConfig_init_def)
  show "LoadFromIni (config_file (L ''00-11-22-AA-BB-CC'') (L ''192.168.0.255'') (L ''0'')) WolConfig_init
     = (InvalidPort, \<lparr>mMacAddress = L ''00-11-22-AA-BB-CC'', mBroadcastIp = L ''192.168.0.255'', mPort = 0\<rparr>)"
    by (subst l[OF _ _ _ wcstoul_examples(2)]) (simp_all add: L_def WolConfig_init_def)
  show "LoadFromIni (config_file (L ''00-11-22-AA-BB-CC'') (L ''192.168.0.255'') (L ''65535'')) WolConfig_init
     = (Success, \<lparr>mMacAddress = L ''00-11-22-AA-BB-CC'', mBroadcastIp = L ''192.168.0.255'', mPort = 65535\<rparr>)"
    by (subst l[OF _ _ _ wcstoul_examples(3)]) (simp_all add: L_def WolConfig_init_def)
  show "LoadFromIni (config_file (L ''00-11-22-AA-BB-CC'') (L ''192.168.0.255'') (L ''65536'')) WolConfig_init
     = (InvalidPort, \<lparr>mMacAddress = L ''00-11-22-AA-BB-CC'', mBroadcastIp = L ''192.168.0.255'', mPort = 0\<rparr>)"
    by (subst l[OF _ _ _ wcstoul_examples(4)]) (simp_all add: L_def WolConfig_init_def)
  show "LoadFromIni (config_file (L ''00-11-22-AA-BB-CC'') (L ''192.168.0.255'') (L ''9abc'')) WolConfig_init
     = (InvalidPort, \<lparr>mMacAddress = L ''00-11-22-AA-BB-CC'', mBroadcastIp = L ''192.168.0.255'', mPort = 0\<rparr>)"
    by (subst l[OF _ _ _ wcstoul_examples(5)]) (simp_all add: L_def WolConfig_init_def)
  show "LoadFromIni (config_file (L ''00-11-22-AA-BB-CC'') (L ''192.168.0.255'') (L ''abc'')) WolConfig_init
     = (InvalidPort, \<lparr>mMacAddress = L ''00-11-22-AA-BB-CC'', mBroadcastIp = L ''192.168.0.255'', mPort = 0\<rparr>)"
    by (subst l[OF _ _ _ wcstoul_examples(6)]) (simp_all add: L_def WolConfig_init_def)
  show "LoadFromIni (config_file (L ''00-11-22-AA-BB-CC'') (L ''192.168.0.255'') (L ''+9'')) WolConfig_init
     = (Success, \<lparr>mMacAddress = L ''00-11-22-AA-BB-CC'', mBroadcastIp = L ''192.168.0.255'', mPort = 9\<rparr>)"
    by (subst l[OF _ _ _ wcstoul_examples(7)]) (simp_all add: L_def WolConfig_init_def)
  show "LoadFromIni (config_file (L ''00-11-22-AA-BB-CC'') (L ''192.168.0.255'') (L '' 9'')) WolConfig_init
     = (Success, \<lparr>mMacAddress = L ''00-11-22-AA-BB-CC'', mBroadcastIp = L ''192.168.0.255'', mPort = 9\<rparr>)"
    by (subst l[OF _ _ _ wcstoul_examples(8)]) (simp_all add: L_def WolConfig_init_def)
  show "LoadFromIni (config_file (L ''00-11-22-AA-BB-CC'') (L ''192.168.0.255'') (L ''-4294967287'')) WolConfig_init
     = (Success, \<lparr>mMacAddress = L ''00-11-22-AA-BB-CC'', mBroadcastIp = L ''192.168.0.255'', mPort = 9\<rparr>)"
    by (subst l[OF _ _ _ wcstoul_examples(9)]) (simp_all add: L_def WolConfig_init_def)
qed

lemma LoadFromIni_invalid_mac_example:
  "LoadFromIni (config_file (L ''zz'') (L ''192.168.0.255'') (L ''9'')) WolConfig_init
     = (InvalidMacAddress, \<lparr>mMacAddress = [], mBroadcastIp = [], mPort = 0\<rparr>)"
proof -
  have g: "GetPrivateProfileStringW (ini_MacAddress (config_file (L ''zz'') (L ''192.168.0.255'') (L ''9''))) []
             MAX_BUFFER_SIZE = (2, L ''zz'')"
      "GetPrivateProfileStringW (ini_BroadcastIp (config_file (L ''zz'') (L ''192.168.0.255'') (L ''9'')))
            (L ''255.255.255.255'') MAX_BUFFER_SIZE = (13, L ''192.168.0.255'')"
      "GetPrivateProfileStringW (ini_Port (config_file (L ''zz'') (L ''192.168.0.255'') (L ''9''))) []
             MAX_BUFFER_SIZE = (1, L ''9'')"
    by (simp_all add: config_file_def GetPrivateProfileStringW_def MAX_BUFFER_SIZE_def L_def)
  have c: "c_str (L ''zz'') = L ''zz''" "c_str (L ''192.168.0.255'') = L ''192.168.0.255''"
    "c_str (L ''9'') = L ''9''"
    by (simp_all add: c_str_def L_def)
  have e: "config_file_exists (config_file (L ''zz'') (L ''192.168.0.255'') (L ''9''))"
    by (simp add: config_file_def)
  have n: "length (L ''9'') = 1" "L ''9'' \<noteq> []" by (simp_all add: L_def)
  show ?thesis
    unfolding LoadFromIni_def GetConfigFilePath_config_file g
    using e valid_examples(3)
    by (simp add: c wcstoul_examples(1) n IsConfigurationValid_def WolConfig_init_def Let_def)
qed

text \<open>
  C4: the port text goes through \<open>wcstoul\<close>, which skips leading white space and
  takes a sign, so \<open>LoadFromIni\<close> accepts \<open>+9\<close>, \<open> 9\<close> and \<open>-4294967287\<close> as port 9
  although they are not wholly decimal digits. On digit strings the boundaries are as
  stated: \<open>0\<close> fails, \<open>65535\<close> succeeds, \<open>65536\<close> fails; \<open>9abc\<close> fails.
\<close>

theorem LoadFromIni_port_sign_accepted:
  "LoadFromIni (config_file (L ''00-11-22-AA-BB-CC'') (L ''192.168.0.255'') (L ''+9'')) WolConfig_init
     = (Success, \<lparr>mMacAddress = L ''00-11-22-AA-BB-CC'', mBroadcastIp = L ''192.168.0.255'', mPort = 9\<rparr>)
   \<and> LoadFromIni (config_file (L ''00-11-22-AA-BB-CC'') (L ''192.168.0.255'') (L '' 9'')) WolConfig_init
     = (Success, \<lparr>mMacAddress = L ''00-11-22-AA-BB-CC'', mBroadcastIp = L ''192.168.0.255'', mPort = 9\<rparr>)
   \<and> LoadFromIni (config_file (L ''00-11-22-AA-BB-CC'') (L ''192.168.0.255'') (L ''-4294967287'')) WolConfig_init
     = (Success, \<lparr>mMacAddress = L ''00-11-22-AA-BB-CC'', mBroadcastIp = L ''192.168.0.255'', mPort = 9\<rparr>)
   \<and> fst (LoadFromIni (config_file (L ''00-11-22-AA-BB-CC'') (L ''192.168.0.255'') (L ''0'')) WolConfig_init)
     = InvalidPort
   \<and> fst (LoadFromIni (config_file (L ''00-11-22-AA-BB-CC'') (L ''192.168.0.255'') (L ''65535'')) WolConfig_init)
     = Success
   \<and> fst (LoadFromIni (config_file (L ''00-11-22-AA-BB-CC'') (L ''192.168.0.255'') (L ''65536'')) WolConfig_init)
     = InvalidPort
   \<and> fst (LoadFromIni (config_file (L ''00-11-22-AA-BB-CC'') (L ''192.168.0.255'') (L ''9abc'')) WolConfig_init)
     = InvalidPort"
  by (simp add: LoadFromIni_port_examples)

text \<open>
  C10: when \<open>LoadFromIni\<close> returns the code of a failed final validation
  (\<open>InvalidMacAddress\<close> or \<open>InvalidBroadcastIp\<close>, which only \<open>IsConfigurationValid\<close> on the
  loaded strings produces), the three members are back at their defaults:
  \<open>GetMacAddress\<close> and \<open>GetBroadcastIp\<close> give the empty string and \<open>GetPort\<close> gives 0.
  When it returns a port error (\<open>FailedToReadPort\<close> or \<open>InvalidPort\<close>), the getters give
  the MAC address and the broadcast address just loaded, and the port is unchanged.
\<close>

theorem LoadFromIni_members_on_error:
  assumes "LoadFromIni env config = (code, config')"
  shows "(code = InvalidMacAddress \<or> code = InvalidBroadcastIp \<longrightarrow>
            (\<exists>port. IsConfigurationValid
                      \<lparr>mMacAddress = loaded (ini_MacAddress env) [],
                       mBroadcastIp = loaded (ini_BroadcastIp env) (L ''255.255.255.255''),
                       mPort = port\<rparr> = code)
            \<and> GetMacAddress config' = [] \<and> GetBroadcastIp config' = [] \<and> GetPort config' = 0)
       \<and> (code = FailedToReadPort \<or> code = InvalidPort \<longrightarrow>
            GetMacAddress config' = loaded (ini_MacAddress env) []
            \<and> GetBroadcastIp config' = loaded (ini_BroadcastIp env) (L ''255.255.255.255'')
            \<and> GetPort config' = GetPort config)"
proof -
  obtain n1 b1 where g1:
    "GetPrivateProfileStringW (ini_MacAddress env) [] MAX_BUFFER_SIZE = (n1, b1)"
    by (cases "GetPrivateProfileStringW (ini_MacAddress env) [] MAX_BUFFER_SIZE")
  obtain n2 b2 where g2:
    "GetPrivateProfileStringW (ini_BroadcastIp env) (L ''255.255.255.255'') MAX_BUFFER_SIZE
       = (n2, b2)"
    by (cases "GetPrivateProfileStringW (ini_BroadcastIp env) (L ''255.255.255.255'')
                 MAX_BUFFER_SIZE")
  obtain n3 b3 where g3:
    "GetPrivateProfileStringW (ini_Port env) [] MAX_BUFFER_SIZE = (n3, b3)"
    by (cases "GetPrivateProfileStringW (ini_Port env) [] MAX_BUFFER_SIZE")
  obtain p e r where w: "wcstoul (c_str b3) = (p, e, r)"
    by (cases "wcstoul (c_str b3)")
  let ?c3 = "\<lparr>mMacAddress = c_str b1, mBroadcastIp = c_str b2, mPort = ucast p\<rparr>"
  have c3: "config\<lparr>mMacAddress := c_str b1, mBroadcastIp := c_str b2, mPort := ucast p\<rparr> = ?c3"
    by simp
  have l: "loaded (ini_MacAddress env) [] = c_str b1"
    "loaded (ini_BroadcastIp env) (L ''255.255.255.255'') = c_str b2"
    by (simp_all add: loaded_def g1 g2)
  from GetConfigFilePath_codes[of env] IsConfigurationValid_codes[of ?c3] assms
  show ?thesis
    unfolding LoadFromIni_def g1 g2 g3 w l Let_def prod.case c3
      GetMacAddress_def GetBroadcastIp_def GetPort_def
    by (auto split: if_splits)
qed

theorem LoadFromIni_members_on_error_witness:
  "LoadFromIni (config_file (L ''zz'') (L ''192.168.0.255'') (L ''9'')) WolConfig_init
     = (InvalidMacAddress, \<lparr>mMacAddress = [], mBroadcastIp = [], mPort = 0\<rparr>)
   \<and> LoadFromIni (config_file (L ''00-11-22-AA-BB-CC'') (L ''192.168.0.255'') (L ''abc'')) WolConfig_init
     = (InvalidPort, \<lparr>mMacAddress = L ''00-11-22-AA-BB-CC'', mBroadcastIp = L ''192.168.0.255'',
                      mPort = 0\<rparr>)
   \<and> loaded (ini_MacAddress (config_file (L ''00-11-22-AA-BB-CC'') (L ''192.168.0.255'') (L ''abc''))) []
     = L ''00-11-22-AA-BB-CC''
   \<and> loaded (ini_BroadcastIp (config_file (L ''00-11-22-AA-BB-CC'') (L ''192.168.0.255'') (L ''abc'')))
        (L ''255.255.255.255'') = L ''192.168.0.255''"
proof -
  note r = LoadFromIni_invalid_mac_example
  from LoadFromIni_members_on_error[OF r]
  have "GetMacAddress \<lparr>mMacAddress = [], mBroadcastIp = [], mPort = 0\<rparr> = []"
    by blast
  with r have a: "LoadFromIni (config_file (L ''zz'') (L ''192.168.0.255'') (L ''9'')) WolConfig_init
     = (InvalidMacAddress, \<lparr>mMacAddress = [], mBroadcastIp = [], mPort = 0\<rparr>)"
    by simp
  from LoadFromIni_members_on_error[OF LoadFromIni_port_examples(6)]
  have b: "loaded (ini_MacAddress (config_file (L ''00-11-22-AA-BB-CC'') (L ''192.168.0.255'') (L ''abc''))) []
     = L ''00-11-22-AA-BB-CC''"
    "loaded (ini_BroadcastIp (config_file (L ''00-11-22-AA-BB-CC'') (L ''192.168.0.255'') (L ''abc'')))
        (L ''255.255.255.255'') = L ''192.168.0.255''"
    by (simp_all add: GetMacAddress_def GetBroadcastIp_def)
  from a b LoadFromIni_port_examples(6) show ?thesis
    by (simp add: WolConfig_init_def)
qed

section \<open>Properties of the send path\<close>

lemma loaded_empty: "loaded None [] = []" "loaded (Some []) dflt = []"
  by (simp_all add: loaded_def GetPrivateProfileStringW_def c_str_def)

lemma LoadFromIni_empty_mac:
  assumes "loaded (ini_MacAddress env) [] = []"
  shows "fst (LoadFromIni env config) \<noteq> Success"
proof -
  obtain n1 b1 where g1:
    "GetPrivateProfileStringW (ini_MacAddress env) [] MAX_BUFFER_SIZE = (n1, b1)"
    by (cases "GetPrivateProfileStringW (ini_MacAddress env) [] MAX_BUFFER_SIZE")
  obtain n2 b2 where g2:
    "GetPrivateProfileStringW (ini_BroadcastIp env) (L ''255.255.255.255'') MAX_BUFFER_SIZE
       = (n2, b2)"
    by (cases "GetPrivateProfileStringW (ini_BroadcastIp env) (L ''255.255.255.255'')
                 MAX_BUFFER_SIZE")
  obtain n3 b3 where g3:
    "GetPrivateProfileStringW (ini_Port env) [] MAX_BUFFER_SIZE = (n3, b3)"
    by (cases "GetPrivateProfileStringW (ini_Port env) [] MAX_BUFFER_SIZE")
  obtain p e r where w: "wcstoul (c_str b3) = (p, e, r)"
    by (cases "wcstoul (c_str b3)")
  from assms have b1: "c_str b1 = []"
    by (simp add: loaded_def g1)
  have v: "IsConfigurationValid (c\<lparr>mMacAddress := [], mBroadcastIp := b, mPort := q\<rparr>)
             = InvalidMacAddress" for c b q
    by (simp add: IsConfigurationValid_def IsValidMacAddress_def)
  show ?thesis
    unfolding LoadFromIni_def g1 g2 g3 w b1 Let_def prod.case
    by (simp add: v)
qed

lemma SendMagicPacket_socket_call:
  assumes "socket_call \<in> set (trace (snd (SendMagicPacket ws mac ip port process_init)))"
  shows "(\<exists>macBytes. ParseMacAddress mac = Some macBytes) \<and> WSAStartup_result ws = 0
         \<and> take 1 (trace (snd (SendMagicPacket ws mac ip port process_init))) = [WSAStartup_call]"
proof (cases "ParseMacAddress mac")
  case None
  with assms show ?thesis
    by (simp add: SendMagicPacket_def process_init_def split: if_splits)
next
  case (Some macBytes)
  show ?thesis
  proof (cases "WSAStartup_result ws = 0")
    case False
    with assms Some show ?thesis
      by (simp add: SendMagicPacket_def process_init_def WsaGuard_Initialize_def
            WsaGuard_destructor_def Let_def split: if_splits)
  next
    case True
    have t: "take 1 (trace (snd (SendMagicPacket ws mac ip port process_init))) = [WSAStartup_call]"
      using assms Some True
      by (auto simp: SendMagicPacket_def process_init_def WsaGuard_Initialize_def
            WsaGuard_destructor_def InitializeSocket_def SendMagicPacket_leave_def
            Socket_Close_def Let_def
          split: if_splits option.splits prod.splits)
    with Some True show ?thesis by simp
  qed
qed

lemma ParseMacAddress_example:
  "ParseMacAddress (L ''00-11-22-AA-BB-CC'') = Some [0x00, 0x11, 0x22, 0xAA, 0xBB, 0xCC]"
  by code_simp

lemma SendMagicPacket_port_65535:
  "SendMagicPacket winsock_ok (L ''00-11-22-AA-BB-CC'') (L ''192.168.0.255'') 65535 process_init
     = (None, \<lparr>mRefCount = 1,
               trace = [WSAStartup_call, socket_call, WSAIoctl_call, setsockopt_call]\<rparr>)"
proof -
  have n: "L ''00-11-22-AA-BB-CC'' \<noteq> []" "L ''192.168.0.255'' \<noteq> []"
    by (simp_all add: L_def)
  show ?thesis
    using n
    by (simp add: SendMagicPacket_def ParseMacAddress_example WsaGuard_Initialize_def
          winsock_ok_def InitializeSocket_def SetupBroadcastAddress_def UINT16_MAX_def
          SOCKET_ERROR_def process_init_def Let_def)
qed

lemma SendMagicPacket_port_9:
  "SendMagicPacket winsock_ok (L ''00-11-22-AA-BB-CC'') (L ''192.168.0.255'') 9 process_init
     = (Some Success, \<lparr>mRefCount = 0,
               trace = [WSAStartup_call, socket_call, WSAIoctl_call, setsockopt_call,
                        sendto_call (CreateMagicPacket [0x00, 0x11, 0x22, 0xAA, 0xBB, 0xCC]
                                       (replicate 102 0))
                          \<lparr>sin_family = 2, sin_port = 0x0900, sin_addr = 0xFFFFFFFF\<rparr>,
                        closesocket_call, WSACleanup_call]\<rparr>)"
proof -
  have n: "L ''00-11-22-AA-BB-CC'' \<noteq> []" "L ''192.168.0.255'' \<noteq> []"
    "int (length (L ''192.168.0.255'')) \<noteq> 0"
    by (simp_all add: L_def)
  have h: "htons 9 = 0x0900" by (simp add: htons_def)
  show ?thesis
    using n
    by (simp add: SendMagicPacket_def ParseMacAddress_example WsaGuard_Initialize_def
          winsock_ok_def InitializeSocket_def SetupBroadcastAddress_def UINT16_MAX_def
          SOCKET_ERROR_def process_init_def Let_def SendMagicPacket_leave_def Socket_Close_def
          WsaGuard_destructor_def AF_INET_def h)
qed

lemma main_port_65535:
  "main (config_file (L ''00-11-22-AA-BB-CC'') (L ''192.168.0.255'') (L ''65535'')) winsock_ok
     = (None, \<lparr>mRefCount = 1,
               trace = [WSAStartup_call, socket_call, WSAIoctl_call, setsockopt_call]\<rparr>)"
  unfolding main_def LoadFromIni_port_examples(3)
  by (simp add: SendMagicPacket_port_65535 GetMacAddress_def GetBroadcastIp_def GetPort_def)

lemma main_port_9:
  "main (config_file (L ''00-11-22-AA-BB-CC'') (L ''192.168.0.255'') (L ''9'')) winsock_ok
     = (Some 0, \<lparr>mRefCount = 0,
               trace = [WSAStartup_call, socket_call, WSAIoctl_call, setsockopt_call,
                        sendto_call (CreateMagicPacket [0x00, 0x11, 0x22, 0xAA, 0xBB, 0xCC]
                                       (replicate 102 0))
                          \<lparr>sin_family = 2, sin_port = 0x0900, sin_addr = 0xFFFFFFFF\<rparr>,
                        closesocket_call, WSACleanup_call]\<rparr>)"
  unfolding main_def LoadFromIni_port_examples(1)
  by (simp add: SendMagicPacket_port_9 GetMacAddress_def GetBroadcastIp_def GetPort_def)

lemma main_empty_mac_example:
  "main (config_file [] (L ''192.168.0.255'') (L ''9'')) winsock_ok = (Some 5, process_init)"
proof -
  have "GetPrivateProfileStringW (ini_MacAddress (config_file [] (L ''192.168.0.255'') (L ''9'')))
          [] MAX_BUFFER_SIZE = (0, [])"
    by (simp add: GetPrivateProfileStringW_def config_file_def)
  moreover have "config_file_exists (config_file [] (L ''192.168.0.255'') (L ''9''))"
    by (simp add: config_file_def)
  ultimately show ?thesis
    by (simp add: main_def LoadFromIni_def GetConfigFilePath_config_file)
qed

lemma enum_value_Success: "uint (enum_value e) = 0 \<longleftrightarrow> e = Success"
  by (cases e) simp_all

text \<open>
  C6: \<open>LoadFromIni\<close> accepts the port text \<open>65535\<close> and stores the port 65535, but
  \<open>SetupBroadcastAddress\<close> asserts \<open>port != 0 && port < UINT16_MAX\<close>: with this port the
  assertion fails, and \<open>main\<close> aborts after the socket option is set, before anything
  is sent. With the port 65534 the assertion holds.
\<close>

theorem SetupBroadcastAddress_assert_65535:
  "LoadFromIni (config_file (L ''00-11-22-AA-BB-CC'') (L ''192.168.0.255'') (L ''65535'')) WolConfig_init
     = (Success, \<lparr>mMacAddress = L ''00-11-22-AA-BB-CC'', mBroadcastIp = L ''192.168.0.255'',
                   mPort = 65535\<rparr>)
   \<and> SetupBroadcastAddress winsock_ok (L ''192.168.0.255'') 65535 = None
   \<and> SetupBroadcastAddress winsock_ok (L ''192.168.0.255'') 65534
       = Some (Success, \<lparr>sin_family = 2, sin_port = 0xFEFF, sin_addr = 0xFFFFFFFF\<rparr>)
   \<and> main (config_file (L ''00-11-22-AA-BB-CC'') (L ''192.168.0.255'') (L ''65535'')) winsock_ok
       = (None, \<lparr>mRefCount = 1,
                 trace = [WSAStartup_call, socket_call, WSAIoctl_call, setsockopt_call]\<rparr>)"
proof -
  have "SetupBroadcastAddress winsock_ok (L ''192.168.0.255'') 65535 = None"
    by (simp add: SetupBroadcastAddress_def UINT16_MAX_def L_def)
  moreover have "SetupBroadcastAddress winsock_ok (L ''192.168.0.255'') 65534
       = Some (Success, \<lparr>sin_family = 2, sin_port = 0xFEFF, sin_addr = 0xFFFFFFFF\<rparr>)"
    by (simp add: SetupBroadcastAddress_def UINT16_MAX_def L_def winsock_ok_def AF_INET_def
          htons_def)
  ultimately show ?thesis
    by (simp add: LoadFromIni_port_examples(3) main_port_65535)
qed

text \<open>
  C7: when the MAC address string of the configuration is empty (the key is missing,
  its value is empty, or what \<open>LoadFromIni\<close> stores for it is the empty string),
  \<open>LoadFromIni\<close> fails and \<open>main\<close> returns that code without any call into WinSock:
  the trace is empty, so no socket is created and nothing is sent.
  \<open>SendMagicPacket\<close> itself, given an empty MAC string, stops at its first assertion;
  and in any run of \<open>SendMagicPacket\<close> a socket is only created after the MAC address
  was parsed and \<open>WSAStartup\<close> succeeded as the first call.
\<close>

theorem main_empty_mac_no_network:
  assumes "loaded (ini_MacAddress env) [] = []"
  shows "fst (LoadFromIni env WolConfig_init) \<noteq> Success
       \<and> (\<exists>code. code \<noteq> 0 \<and> main env ws = (Some code, process_init))
       \<and> trace (snd (main env ws)) = []
       \<and> SendMagicPacket ws [] ip port p = (None, p)
       \<and> (socket_call \<in> set (trace (snd (SendMagicPacket ws mac ip port process_init)))
            \<longrightarrow> (\<exists>macBytes. ParseMacAddress mac = Some macBytes) \<and> WSAStartup_result ws = 0
              \<and> take 1 (trace (snd (SendMagicPacket ws mac ip port process_init)))
                  = [WSAStartup_call])"
proof -
  obtain code config where l: "LoadFromIni env WolConfig_init = (code, config)"
    by (cases "LoadFromIni env WolConfig_init")
  from LoadFromIni_empty_mac[OF assms, of WolConfig_init] l
  have c: "code \<noteq> Success" by simp
  then have m: "main env ws = (Some (uint (enum_value code)), process_init)"
    by (simp add: main_def l)
  from c have "uint (enum_value code) \<noteq> 0"
    by (simp add: enum_value_Success)
  with m have "\<exists>code. code \<noteq> 0 \<and> main env ws = (Some code, process_init)"
    by blast
  moreover have "trace (snd (main env ws)) = []"
    by (simp add: m process_init_def)
  moreover have "SendMagicPacket ws [] ip port p = (None, p)"
    by (simp add: SendMagicPacket_def)
  moreover have "fst (LoadFromIni env WolConfig_init) \<noteq> Success"
    using c l by simp
  ultimately show ?thesis
    using SendMagicPacket_socket_call[of ws mac ip port] by blast
qed

theorem main_empty_mac_no_network_witness:
  "loaded (ini_MacAddress (config_file [] (L ''192.168.0.255'') (L ''9''))) [] = []
   \<and> fst (LoadFromIni (config_file [] (L ''192.168.0.255'') (L ''9'')) WolConfig_init) \<noteq> Success
   \<and> main (config_file [] (L ''192.168.0.255'') (L ''9'')) winsock_ok = (Some 5, process_init)
   \<and> trace (snd (main (config_file [] (L ''192.168.0.255'') (L ''9'')) winsock_ok)) = []
   \<and> socket_call \<in> set (trace (snd (SendMagicPacket winsock_ok (L ''00-11-22-AA-BB-CC'')
                                       (L ''192.168.0.255'') 9 process_init)))
   \<and> ParseMacAddress (L ''00-11-22-AA-BB-CC'') = Some [0x00, 0x11, 0x22, 0xAA, 0xBB, 0xCC]
   \<and> take 1 (trace (snd (SendMagicPacket winsock_ok (L ''00-11-22-AA-BB-CC'')
                            (L ''192.168.0.255'') 9 process_init))) = [WSAStartup_call]"
proof -
  have h: "loaded (ini_MacAddress (config_file [] (L ''192.168.0.255'') (L ''9''))) [] = []"
    by (simp add: config_file_def loaded_empty)
  have s: "socket_call \<in> set (trace (snd (SendMagicPacket winsock_ok (L ''00-11-22-AA-BB-CC'')
                                       (L ''192.168.0.255'') 9 process_init)))"
    by (simp add: SendMagicPacket_port_9)
  note t = main_empty_mac_no_network[OF h, where ws = winsock_ok and ip = "L ''192.168.0.255''"
      and port = 9 and p = process_init and mac = "L ''00-11-22-AA-BB-CC''"]
  from t s have
    "fst (LoadFromIni (config_file [] (L ''192.168.0.255'') (L ''9'')) WolConfig_init) \<noteq> Success"
    "trace (snd (main (config_file [] (L ''192.168.0.255'') (L ''9'')) winsock_ok)) = []"
    "take 1 (trace (snd (SendMagicPacket winsock_ok (L ''00-11-22-AA-BB-CC'')
                            (L ''192.168.0.255'') 9 process_init))) = [WSAStartup_call]"
    by blast+
  then show ?thesis
    using h s main_empty_mac_example ParseMacAddress_example
    by simp
qed

text \<open>
  C5, as the code has it: the validators return one code per field. Every outcome of
  the MAC check is \<open>Success\<close> or \<open>InvalidMacAddress\<close>, every outcome of the octet check
  and of the address check is \<open>Success\<close> or \<open>InvalidBroadcastIp\<close>, and with a valid MAC
  address and broadcast address every non-empty port text gives \<open>Success\<close> or
  \<open>InvalidPort\<close>. The three codes differ from each other.
\<close>

theorem validation_code_per_field:
  "(IsValidMacAddress mac = Success \<or> IsValidMacAddress mac = InvalidMacAddress)
   \<and> (IsValidateIpOctet octet = Success \<or> IsValidateIpOctet octet = InvalidBroadcastIp)
   \<and> (IsValidBroadcastIpAddress ip = Success \<or> IsValidBroadcastIpAddress ip = InvalidBroadcastIp)
   \<and> (IsValidMacAddress m = Success \<and> IsValidBroadcastIpAddress b = Success
        \<and> 0 \<notin> set m \<and> 0 \<notin> set b \<and> 0 \<notin> set port
        \<and> length m \<le> 255 \<and> length b \<le> 255 \<and> length port \<le> 255 \<and> port \<noteq> []
      \<longrightarrow> fst (LoadFromIni (config_file m b port) config) = Success
          \<or> fst (LoadFromIni (config_file m b port) config) = InvalidPort)
   \<and> distinct [InvalidMacAddress, InvalidBroadcastIp, InvalidPort]"
proof -
  have "fst (LoadFromIni (config_file m b port) config) = Success
          \<or> fst (LoadFromIni (config_file m b port) config) = InvalidPort"
    if h: "IsValidMacAddress m = Success \<and> IsValidBroadcastIpAddress b = Success
        \<and> 0 \<notin> set m \<and> 0 \<notin> set b \<and> 0 \<notin> set port
        \<and> length m \<le> 255 \<and> length b \<le> 255 \<and> length port \<le> 255 \<and> port \<noteq> []"
  proof -
    obtain p e r where w: "wcstoul port = (p, e, r)" by (cases "wcstoul port")
    from h have "m \<noteq> []" "b \<noteq> []"
      by (auto simp: IsValidMacAddress_Success IsValidBroadcastIpAddress_Success)
    with h w show ?thesis
      by (subst (1 2) LoadFromIni_config_file[where p = p and e = e and r = r]) auto
  qed
  then show ?thesis
    using IsValidMacAddress_codes[of mac] IsValidateIpOctet_codes[of octet]
      IsValidBroadcastIpAddress_codes[of ip]
    by simp
qed

theorem validation_code_per_field_witness:
  "IsValidMacAddress (L ''00-11-22-AA-BB-CC'') = Success
   \<and> IsValidBroadcastIpAddress (L ''192.168.0.255'') = Success
   \<and> 0 \<notin> set (L ''00-11-22-AA-BB-CC'') \<and> 0 \<notin> set (L ''192.168.0.255'') \<and> 0 \<notin> set (L ''9abc'')
   \<and> length (L ''00-11-22-AA-BB-CC'') \<le> 255 \<and> length (L ''192.168.0.255'') \<le> 255
   \<and> length (L ''9abc'') \<le> 255 \<and> L ''9abc'' \<noteq> []
   \<and> fst (LoadFromIni (config_file (L ''00-11-22-AA-BB-CC'') (L ''192.168.0.255'') (L ''9abc''))
            WolConfig_init) = InvalidPort"
proof -
  have h: "IsValidMacAddress (L ''00-11-22-AA-BB-CC'') = Success
   \<and> IsValidBroadcastIpAddress (L ''192.168.0.255'') = Success
   \<and> 0 \<notin> set (L ''00-11-22-AA-BB-CC'') \<and> 0 \<notin> set (L ''192.168.0.255'') \<and> 0 \<notin> set (L ''9abc'')
   \<and> length (L ''00-11-22-AA-BB-CC'') \<le> 255 \<and> length (L ''192.168.0.255'') \<le> 255
   \<and> length (L ''9abc'') \<le> 255 \<and> L ''9abc'' \<noteq> []"
    using valid_examples(1,2) by (simp add: L_def)
  have n: "fst (LoadFromIni (config_file (L ''00-11-22-AA-BB-CC'') (L ''192.168.0.255'') (L ''9abc''))
            WolConfig_init) \<noteq> Success"
    by (simp add: LoadFromIni_port_examples(5))
  from validation_code_per_field[of _ _ _ "L ''00-11-22-AA-BB-CC''" "L ''192.168.0.255''"
      "L ''9abc''" WolConfig_init] h n
  have "fst (LoadFromIni (config_file (L ''00-11-22-AA-BB-CC'') (L ''192.168.0.255'') (L ''9abc''))
            WolConfig_init) = InvalidPort"
    by blast
  with h show ?thesis by blast
qed

text \<open>
  C5, as stated, fails: a wrong separator and a character that is no hexadecimal
  digit give the same value \<open>InvalidMacAddress\<close>; an octet that is too long, holds a
  non-digit, has a leading zero or is above 255 gives \<open>InvalidBroadcastIp\<close> each time;
  the port 0 and the port 65536 both give \<open>InvalidPort\<close>.
\<close>

theorem validation_subcause_not_returned:
  "IsValidMacAddress (L ''00:11-22-AA-BB-CC'') = IsValidMacAddress (L ''0G-11-22-AA-BB-CC'')
   \<and> IsValidMacAddress (L ''00:11-22-AA-BB-CC'') = InvalidMacAddress
   \<and> IsValidateIpOctet (L ''1234'') = InvalidBroadcastIp
   \<and> IsValidateIpOctet (L ''1a'') = InvalidBroadcastIp
   \<and> IsValidateIpOctet (L ''01'') = InvalidBroadcastIp
   \<and> IsValidateIpOctet (L ''256'') = InvalidBroadcastIp
   \<and> fst (LoadFromIni (config_file (L ''00-11-22-AA-BB-CC'') (L ''192.168.0.255'') (L ''0''))
            WolConfig_init) = InvalidPort
   \<and> fst (LoadFromIni (config_file (L ''00-11-22-AA-BB-CC'') (L ''192.168.0.255'') (L ''65536''))
            WolConfig_init) = InvalidPort"
proof -
  have "IsValidMacAddress (L ''00:11-22-AA-BB-CC'') = InvalidMacAddress"
    "IsValidMacAddress (L ''0G-11-22-AA-BB-CC'') = InvalidMacAddress"
    "IsValidateIpOctet (L ''1234'') = InvalidBroadcastIp"
    "IsValidateIpOctet (L ''1a'') = InvalidBroadcastIp"
    "IsValidateIpOctet (L ''01'') = InvalidBroadcastIp"
    "IsValidateIpOctet (L ''256'') = InvalidBroadcastIp"
    by code_simp+
  then show ?thesis
    by (simp add: LoadFromIni_port_examples)
qed

end
